theory Spec2Isabelle
  imports Complex_Main
begin

section \<open>Data model (models/types.ts)\<close>

text \<open>
  The engine computes with JavaScript numbers. They are modelled as exact reals: IEEE
  rounding, overflow and NaN are outside the model. Where the source returns the value
  \<^verbatim>\<open>Infinity\<close> explicitly, the model has a constructor for it (type \<open>xnumber\<close>).

  An optional property \<^verbatim>\<open>p?: T\<close> of a TypeScript object has three states that the
  source tells apart: the key is missing (\<^verbatim>\<open>'p' in n\<close> is false), the key is there with
  the value \<^verbatim>\<open>undefined\<close>, or it holds a value.
\<close>

datatype 'a optional = Absent | Undefined | Present 'a

datatype Voltage = V12 | V24 | V48

fun voltageValue :: "Voltage \<Rightarrow> real" where
  "voltageValue V12 = 12"
| "voltageValue V24 = 24"
| "voltageValue V48 = 48"

datatype NodeType =
  consumer | battery | solar | alternator | charger | inverter | bus | fuse | switch

datatype BatteryChemistry = lead | agm | gel | lifepo4 | lithium

datatype Configuration = series | parallel

text \<open>
  \<^verbatim>\<open>ElectricalNode = ElectricalNodeBase & NodeSpecificProps\<close>: the base fields the engine
  reads (id, name, voltage) and the variant, which fixes \<^verbatim>\<open>type\<close>. Fields that no
  calculation reads (icon, position, rotation, locked, category, dod, chargeCurrentA,
  inputVoltage, outputVoltage, portCount, fuseType, isOn, switchType) are left out.
\<close>

datatype NodeSpecificProps =
    ConsumerProps "real optional" "real optional" real real
      \<comment> \<open>powerW?, currentA?, dailyHours, dutyCycle\<close>
  | BatteryProps real BatteryChemistry "real optional" "Configuration optional"
      \<comment> \<open>capacityAh, chemistry, quantity?, configuration?\<close>
  | SolarProps real "real optional" "real optional"
      \<comment> \<open>maxPowerW, efficiency?, quantity?\<close>
  | AlternatorProps real "real optional" "real optional"
      \<comment> \<open>maxPowerW, efficiency?, engineHoursPerDay?\<close>
  | ChargerProps real
      \<comment> \<open>maxPowerW\<close>
  | InverterProps real "real optional"
      \<comment> \<open>maxPowerW, efficiency?\<close>
  | BusProps real
      \<comment> \<open>maxCurrentA\<close>
  | FuseProps real
      \<comment> \<open>ratingA\<close>
  | SwitchProps real
      \<comment> \<open>maxCurrentA\<close>

record ElectricalNode =
  nodeId :: string
  nodeName :: string
  voltage :: Voltage
  props :: NodeSpecificProps

fun propsType :: "NodeSpecificProps \<Rightarrow> NodeType" where
  "propsType (ConsumerProps _ _ _ _) = consumer"
| "propsType (BatteryProps _ _ _ _) = battery"
| "propsType (SolarProps _ _ _) = solar"
| "propsType (AlternatorProps _ _ _) = alternator"
| "propsType (ChargerProps _) = charger"
| "propsType (InverterProps _ _) = inverter"
| "propsType (BusProps _) = bus"
| "propsType (FuseProps _) = fuse"
| "propsType (SwitchProps _) = switch"

definition nodeType :: "ElectricalNode \<Rightarrow> NodeType" where
  "nodeType n = propsType (props n)"

text \<open>\<^verbatim>\<open>x ?? d\<close>: the default replaces a missing or undefined value.\<close>

fun orDefault :: "'a optional \<Rightarrow> 'a \<Rightarrow> 'a" where
  "orDefault (Present v) d = v"
| "orDefault Undefined d = d"
| "orDefault Absent d = d"

record Connection =
  connId :: string
  fromNodeId :: string
  toNodeId :: string
  sectionMm2 :: real
  lengthM :: real

section \<open>Power and energy (utils/calculations/power.ts)\<close>

definition DEFAULT_SUN_HOURS :: real where "DEFAULT_SUN_HOURS = 5"
definition DEFAULT_SOLAR_EFFICIENCY :: real where "DEFAULT_SOLAR_EFFICIENCY = 0.7"
definition DEFAULT_ALTERNATOR_EFFICIENCY :: real where "DEFAULT_ALTERNATOR_EFFICIENCY = 0.85"

definition getNodeCurrent :: "ElectricalNode \<Rightarrow> real" where
  "getNodeCurrent node =
     (case props node of
        ConsumerProps powerW currentA dailyHours dutyCycle \<Rightarrow>
          (case currentA of
             Present c \<Rightarrow> c
           | _ \<Rightarrow> (case powerW of
                     Present p \<Rightarrow> p / voltageValue (voltage node)
                   | _ \<Rightarrow> 0))
      | _ \<Rightarrow> 0)"

definition getNodePower :: "ElectricalNode \<Rightarrow> real" where
  "getNodePower node =
     (case props node of
        ConsumerProps powerW currentA dailyHours dutyCycle \<Rightarrow>
          (case powerW of
             Present p \<Rightarrow> p
           | _ \<Rightarrow> (case currentA of
                     Present c \<Rightarrow> c * voltageValue (voltage node)
                   | _ \<Rightarrow> 0))
      | _ \<Rightarrow> 0)"

definition getNodeDailyAh :: "ElectricalNode \<Rightarrow> real" where
  "getNodeDailyAh node =
     (case props node of
        ConsumerProps powerW currentA dailyHours dutyCycle \<Rightarrow>
          getNodeCurrent node * dailyHours * dutyCycle
      | _ \<Rightarrow> 0)"

text \<open>\<^verbatim>\<open>xs.filter(p).reduce((sum, n) => sum + f(n), 0)\<close> is a left fold from 0.\<close>

definition getTotalDailyConsumptionAh :: "ElectricalNode list \<Rightarrow> real" where
  "getTotalDailyConsumptionAh nodes =
     foldl (\<lambda>sum n. sum + getNodeDailyAh n) 0 (filter (\<lambda>n. nodeType n = consumer) nodes)"

definition getSolarDailyAh :: "ElectricalNode \<Rightarrow> real \<Rightarrow> real" where
  "getSolarDailyAh node sunHours =
     (case props node of
        SolarProps maxPowerW efficiency quantity \<Rightarrow>
          (maxPowerW * orDefault quantity 1 * sunHours
             * orDefault efficiency DEFAULT_SOLAR_EFFICIENCY) / voltageValue (voltage node)
      | _ \<Rightarrow> 0)"

definition getTotalSolarDailyAh :: "ElectricalNode list \<Rightarrow> real \<Rightarrow> real" where
  "getTotalSolarDailyAh nodes sunHours =
     foldl (\<lambda>sum n. sum + getSolarDailyAh n sunHours) 0
       (filter (\<lambda>n. nodeType n = solar) nodes)"

definition getAlternatorDailyAh :: "ElectricalNode \<Rightarrow> real" where
  "getAlternatorDailyAh node =
     (case props node of
        AlternatorProps maxPowerW efficiency engineHoursPerDay \<Rightarrow>
          (let maxCurrent =
                 (maxPowerW * orDefault efficiency DEFAULT_ALTERNATOR_EFFICIENCY)
                   / voltageValue (voltage node)
           in maxCurrent * orDefault engineHoursPerDay 0)
      | _ \<Rightarrow> 0)"

definition getTotalAlternatorDailyAh :: "ElectricalNode list \<Rightarrow> real" where
  "getTotalAlternatorDailyAh nodes =
     foldl (\<lambda>sum n. sum + getAlternatorDailyAh n) 0
       (filter (\<lambda>n. nodeType n = alternator) nodes)"

text \<open>The source's default for \<^verbatim>\<open>hoursPlugged\<close> is 0; callers pass it here.\<close>

definition getChargerDailyAh :: "ElectricalNode \<Rightarrow> real \<Rightarrow> real" where
  "getChargerDailyAh node hoursPlugged =
     (case props node of
        ChargerProps maxPowerW \<Rightarrow>
          (let maxCurrent = maxPowerW / voltageValue (voltage node)
           in maxCurrent * hoursPlugged)
      | _ \<Rightarrow> 0)"

definition getTotalDailyProductionAh :: "ElectricalNode list \<Rightarrow> real \<Rightarrow> real" where
  "getTotalDailyProductionAh nodes sunHours =
     (let solar = getTotalSolarDailyAh nodes sunHours;
          alternator = getTotalAlternatorDailyAh nodes
      in solar + alternator)"

section \<open>Battery sizing (utils/calculations/battery.ts)\<close>

datatype xnumber = Fin real | Infinity

fun xge :: "xnumber \<Rightarrow> real \<Rightarrow> bool" where
  "xge Infinity r = True"
| "xge (Fin a) r = (a \<ge> r)"

fun DOD_BY_CHEMISTRY :: "BatteryChemistry \<Rightarrow> real" where
  "DOD_BY_CHEMISTRY lead = 0.5"
| "DOD_BY_CHEMISTRY agm = 0.5"
| "DOD_BY_CHEMISTRY gel = 0.5"
| "DOD_BY_CHEMISTRY lifepo4 = 0.8"
| "DOD_BY_CHEMISTRY lithium = 0.8"

definition DEFAULT_DAYS_AUTONOMY :: real where "DEFAULT_DAYS_AUTONOMY = 2"

text \<open>
  \<^verbatim>\<open>'configuration' in n ? n.configuration : 'parallel'\<close>: only a missing key
  defaults to parallel; a key holding \<^verbatim>\<open>undefined\<close> stays undefined and fails the
  test \<^verbatim>\<open>config === 'parallel'\<close>.
\<close>

definition getTotalBatteryCapacityAh :: "ElectricalNode list \<Rightarrow> real" where
  "getTotalBatteryCapacityAh nodes =
     foldl (\<lambda>sum n.
        (case props n of
           BatteryProps capacityAh chem qty configuration \<Rightarrow>
             (let quantity = orDefault qty 1;
                  config = (case configuration of Absent \<Rightarrow> Present parallel | c \<Rightarrow> c)
              in if config = Present parallel
                 then sum + capacityAh * quantity
                 else sum + capacityAh)
         | _ \<Rightarrow> sum))
       0 (filter (\<lambda>n. nodeType n = battery) nodes)"

text \<open>
  \<^verbatim>\<open>capacityByChemistry\<close> is an object whose keys \<^verbatim>\<open>Object.entries\<close> lists in
  insertion order: an association list where a known key is updated in place and a new
  one is appended.
\<close>

fun addCapacity ::
  "(BatteryChemistry \<times> real) list \<Rightarrow> BatteryChemistry \<Rightarrow> real \<Rightarrow> (BatteryChemistry \<times> real) list"
where
  "addCapacity [] k c = [(k, 0 + c)]"
| "addCapacity ((k', v) # rest) k c =
     (if k' = k then (k', v + c) # rest else (k', v) # addCapacity rest k c)"

definition getDominantBatteryChemistry :: "ElectricalNode list \<Rightarrow> BatteryChemistry" where
  "getDominantBatteryChemistry nodes =
     (let batteries = filter (\<lambda>n. nodeType n = battery) nodes
      in if batteries = [] then lead
         else
           (let capacityByChemistry =
                  foldl (\<lambda>acc bat.
                     (case props bat of
                        BatteryProps capacityAh chem qty configuration \<Rightarrow>
                          addCapacity acc chem (capacityAh * orDefault qty 1)
                      | _ \<Rightarrow> acc))
                    [] batteries
            in snd (foldl (\<lambda>(maxCapacity, dominantChemistry) (chem, capacity).
                      if capacity > maxCapacity then (capacity, chem)
                      else (maxCapacity, dominantChemistry))
                    (0, lead) capacityByChemistry)))"

definition getEffectiveDoD :: "ElectricalNode list \<Rightarrow> real" where
  "getEffectiveDoD nodes = DOD_BY_CHEMISTRY (getDominantBatteryChemistry nodes)"

definition getUsableBatteryCapacityAh :: "ElectricalNode list \<Rightarrow> real" where
  "getUsableBatteryCapacityAh nodes =
     (let totalCapacity = getTotalBatteryCapacityAh nodes;
          dod = getEffectiveDoD nodes
      in totalCapacity * dod)"

definition getEstimatedAutonomyDays :: "real \<Rightarrow> real \<Rightarrow> xnumber" where
  "getEstimatedAutonomyDays usableCapacityAh dailyConsumptionAh =
     (if dailyConsumptionAh \<le> 0 then Infinity
      else Fin (usableCapacityAh / dailyConsumptionAh))"

definition getEstimatedAutonomyDaysFromNodes :: "ElectricalNode list \<Rightarrow> xnumber" where
  "getEstimatedAutonomyDaysFromNodes nodes =
     (let usableCapacity = getUsableBatteryCapacityAh nodes;
          dailyConsumption = getTotalDailyConsumptionAh nodes
      in getEstimatedAutonomyDays usableCapacity dailyConsumption)"

datatype BatteryStatus = BatteryOk | BatteryWarning | BatteryCritical

definition getBatteryStatus :: "ElectricalNode list \<Rightarrow> real \<Rightarrow> BatteryStatus" where
  "getBatteryStatus nodes requiredAutonomyDays =
     (let estimatedAutonomy = getEstimatedAutonomyDaysFromNodes nodes
      in if xge estimatedAutonomy requiredAutonomyDays then BatteryOk
         else if xge estimatedAutonomy (requiredAutonomyDays * 0.5) then BatteryWarning
         else BatteryCritical)"

section \<open>Reference data (data/cableStandards.ts)\<close>

record CableSpec =
  specSectionMm2 :: real
  maxCurrentA :: real
  recommendedFuseA :: real
  resistancePerKm :: real

definition mkSpec :: "real \<Rightarrow> real \<Rightarrow> real \<Rightarrow> real \<Rightarrow> CableSpec" where
  "mkSpec s c f r =
     \<lparr>specSectionMm2 = s, maxCurrentA = c, recommendedFuseA = f, resistancePerKm = r\<rparr>"

definition cableStandards :: "CableSpec list" where
  "cableStandards =
     [mkSpec 0.5 3 3 36.7,
      mkSpec 0.75 6 5 24.8,
      mkSpec 1.0 10 7.5 18.2,
      mkSpec 1.5 15 10 12.2,
      mkSpec 2.5 20 15 7.41,
      mkSpec 4 30 25 4.61,
      mkSpec 6 40 30 3.08,
      mkSpec 10 60 50 1.83,
      mkSpec 16 80 60 1.15,
      mkSpec 25 110 80 0.727,
      mkSpec 35 140 100 0.524,
      mkSpec 50 175 150 0.387,
      mkSpec 70 215 175 0.268,
      mkSpec 95 265 200 0.193,
      mkSpec 120 310 250 0.153]"

definition COPPER_RESISTIVITY :: real where "COPPER_RESISTIVITY = 0.0175"

definition MAX_VOLTAGE_DROP_PERCENT :: real where "MAX_VOLTAGE_DROP_PERCENT = 3"

definition standardFuseRatings :: "real list" where
  "standardFuseRatings =
     [1, 2, 3, 5, 7.5, 10, 15, 20, 25, 30, 35, 40, 50, 60, 70, 80, 100, 125, 150, 175,
      200, 250, 300]"

definition getRecommendedFuse :: "real \<Rightarrow> real" where
  "getRecommendedFuse currentA =
     (let targetRating = currentA * 1.25
      in case find (\<lambda>rating. rating \<ge> targetRating) standardFuseRatings of
           Some rating \<Rightarrow> rating
         | None \<Rightarrow> last standardFuseRatings)"

definition getCableSpecBySection :: "real \<Rightarrow> CableSpec option" where
  "getCableSpecBySection section = find (\<lambda>spec. specSectionMm2 spec = section) cableStandards"

section \<open>Cable analysis (utils/calculations/cables.ts)\<close>

text \<open>
  The data model has \<^verbatim>\<open>sectionMm2 > 0\<close>. For a section 0 the divisions below give an
  infinity or NaN in the source and 0 in HOL; this touches the voltage drop, the power
  loss and the choice between the status ok and warning only. The overload test and
  everything proved below do not depend on it.
\<close>

definition calculateVoltageDrop :: "real \<Rightarrow> real \<Rightarrow> real \<Rightarrow> real" where
  "calculateVoltageDrop currentA lengthM' sectionMm2' =
     (2 * COPPER_RESISTIVITY * lengthM' * currentA) / sectionMm2'"

definition calculatePowerLoss :: "real \<Rightarrow> real \<Rightarrow> real \<Rightarrow> real" where
  "calculatePowerLoss currentA lengthM' sectionMm2' =
     (let resistance = (2 * COPPER_RESISTIVITY * lengthM') / sectionMm2'
      in currentA * currentA * resistance)"

definition calculateMinSection :: "real \<Rightarrow> real \<Rightarrow> real \<Rightarrow> real \<Rightarrow> xnumber" where
  "calculateMinSection currentA lengthM' voltage' maxDropPercent =
     (let maxDropVolts = voltage' * (maxDropPercent / 100)
      in if maxDropVolts \<le> 0 then Infinity
         else Fin ((2 * COPPER_RESISTIVITY * lengthM' * currentA) / maxDropVolts))"

text \<open>\<^verbatim>\<open>Math.max\<close> and \<^verbatim>\<open>>=\<close> where one side may be \<^verbatim>\<open>Infinity\<close>.\<close>

fun xmax :: "xnumber \<Rightarrow> real \<Rightarrow> xnumber" where
  "xmax Infinity r = Infinity"
| "xmax (Fin a) r = Fin (max a r)"

fun geX :: "real \<Rightarrow> xnumber \<Rightarrow> bool" where
  "geX r Infinity = False"
| "geX r (Fin a) = (r \<ge> a)"

definition getRecommendedSection :: "real \<Rightarrow> real \<Rightarrow> real \<Rightarrow> real \<Rightarrow> real" where
  "getRecommendedSection currentA lengthM' voltage' maxDropPercent =
     (let minSectionForDrop = calculateMinSection currentA lengthM' voltage' maxDropPercent;
          requiredCurrent = currentA * 1.25;
          sectionForCurrent = find (\<lambda>s. maxCurrentA s \<ge> requiredCurrent) cableStandards;
          minSectionForCurrent =
            (case sectionForCurrent of Some s \<Rightarrow> specSectionMm2 s | None \<Rightarrow> 0.5);
          minSection = xmax minSectionForDrop minSectionForCurrent;
          standard = find (\<lambda>s. geX (specSectionMm2 s) minSection) cableStandards
      in case standard of
           Some s \<Rightarrow> specSectionMm2 s
         | None \<Rightarrow> specSectionMm2 (last cableStandards))"

definition isCableOversized :: "Connection \<Rightarrow> real \<Rightarrow> real \<Rightarrow> bool" where
  "isCableOversized connection currentA voltage' =
     (let recommended =
            getRecommendedSection currentA (lengthM connection) voltage' MAX_VOLTAGE_DROP_PERCENT
      in sectionMm2 connection > recommended * 1.5)"

datatype CableStatus = StatusOk | StatusWarning | StatusOverload

record CableAnalysis =
  connectionId :: string
  currentA :: real
  voltageDrop :: real
  voltageDropPercent :: real
  powerLossW :: real
  recommendedSectionMm2 :: real
  status :: CableStatus

text \<open>\<^verbatim>\<open>Math.round\<close> rounds to the nearest integer, halves towards \<open>+\<infinity>\<close>.\<close>

definition mathRound :: "real \<Rightarrow> real" where
  "mathRound x = of_int \<lfloor>x + 1 / 2\<rfloor>"

text \<open>
  The first statement block of \<^verbatim>\<open>analyzeCable\<close> (the value of its local
  \<^verbatim>\<open>currentA\<close> before rounding), named so that theorems can refer to it. In a
  well-typed node of type battery the key \<^verbatim>\<open>capacityAh\<close> is always there.
\<close>

definition analyzeCableCurrentA :: "ElectricalNode \<Rightarrow> ElectricalNode \<Rightarrow> real" where
  "analyzeCableCurrentA fromNode toNode =
     (if nodeType fromNode = consumer then getNodeCurrent fromNode
      else if nodeType toNode = consumer then getNodeCurrent toNode
      else (case props fromNode of
              BatteryProps capacityAh chem qty configuration \<Rightarrow> capacityAh / 5
            | _ \<Rightarrow> 0))"

definition analyzeCable :: "Connection \<Rightarrow> ElectricalNode \<Rightarrow> ElectricalNode \<Rightarrow> CableAnalysis" where
  "analyzeCable connection fromNode toNode =
     (let currentA' = analyzeCableCurrentA fromNode toNode;
          voltage' = voltageValue (voltage fromNode);
          voltageDrop' =
            calculateVoltageDrop currentA' (lengthM connection) (sectionMm2 connection);
          voltageDropPercent' = (voltageDrop' / voltage') * 100;
          powerLossW' =
            calculatePowerLoss currentA' (lengthM connection) (sectionMm2 connection);
          recommendedSection =
            getRecommendedSection currentA' (lengthM connection) voltage'
              MAX_VOLTAGE_DROP_PERCENT;
          cableSpec = find (\<lambda>s. specSectionMm2 s = sectionMm2 connection) cableStandards;
          maxCurrent = (case cableSpec of Some s \<Rightarrow> maxCurrentA s | None \<Rightarrow> 0);
          status' =
            (if currentA' > maxCurrent then StatusOverload
             else if voltageDropPercent' > MAX_VOLTAGE_DROP_PERCENT then StatusWarning
             else StatusOk)
      in \<lparr>connectionId = connId connection,
          currentA = mathRound (currentA' * 10) / 10,
          voltageDrop = mathRound (voltageDrop' * 1000) / 1000,
          voltageDropPercent = mathRound (voltageDropPercent' * 100) / 100,
          powerLossW = mathRound (powerLossW' * 10) / 10,
          recommendedSectionMm2 = recommendedSection,
          status = status'\<rparr>)"

text \<open>
  \<^verbatim>\<open>new Map(nodes.map(n => [n.id, n]))\<close> inserts the entries in order, so of two
  nodes with one id the later one stays.
\<close>

definition nodeMap :: "ElectricalNode list \<Rightarrow> (string \<rightharpoonup> ElectricalNode)" where
  "nodeMap nodes = foldl (\<lambda>m n. m(nodeId n \<mapsto> n)) Map.empty nodes"

definition analyzeAllCables :: "Connection list \<Rightarrow> ElectricalNode list \<Rightarrow> CableAnalysis list" where
  "analyzeAllCables connections nodes =
     map (\<lambda>conn.
        (case (nodeMap nodes (fromNodeId conn), nodeMap nodes (toNodeId conn)) of
           (Some fromNode, Some toNode) \<Rightarrow> analyzeCable conn fromNode toNode
         | _ \<Rightarrow>
             \<lparr>connectionId = connId conn,
              currentA = 0,
              voltageDrop = 0,
              voltageDropPercent = 0,
              powerLossW = 0,
              recommendedSectionMm2 = 0.5,
              status = StatusOk\<rparr>))
       connections"

section \<open>Circuit validation (utils/calculations/validation.ts)\<close>

datatype ErrorType = voltage_mismatch | overcurrent | no_source | disconnected

datatype WarningType = voltage_drop | undersized_cable | low_battery | unbalanced

text \<open>
  The messages are template strings; the model keeps the template and the values put
  into it, not the rendered text.
\<close>

datatype Message =
    MsgNoBattery
  | MsgVoltageMismatch Voltage Voltage
  | MsgOverload real
  | MsgHighVoltageDrop real
  | MsgRecommendedSection real real
  | MsgNotConnected string
  | MsgBatteryInsufficient
  | MsgBatteryLimited
  | MsgUnbalanced real

record ValidationError =
  errorType :: ErrorType
  errorNodeIds :: "string list option"
  errorConnectionId :: "string option"
  errorMessage :: Message

record ValidationWarning =
  warningType :: WarningType
  warningNodeIds :: "string list option"
  warningConnectionId :: "string option"
  warningMessage :: Message

record CircuitValidation =
  isValid :: bool
  errors :: "ValidationError list"
  warnings :: "ValidationWarning list"

definition checkVoltageMismatch :: "ElectricalNode list \<Rightarrow> Connection list \<Rightarrow> ValidationError list" where
  "checkVoltageMismatch nodes connections =
     concat (map (\<lambda>conn.
        (case (nodeMap nodes (fromNodeId conn), nodeMap nodes (toNodeId conn)) of
           (Some fromNode, Some toNode) \<Rightarrow>
             (if voltage fromNode \<noteq> voltage toNode
              then [\<lparr>errorType = voltage_mismatch,
                     errorNodeIds = Some [nodeId fromNode, nodeId toNode],
                     errorConnectionId = Some (connId conn),
                     errorMessage = MsgVoltageMismatch (voltage fromNode) (voltage toNode)\<rparr>]
              else [])
         | _ \<Rightarrow> []))
       connections)"

definition checkDisconnectedNodes :: "ElectricalNode list \<Rightarrow> Connection list \<Rightarrow> ValidationWarning list" where
  "checkDisconnectedNodes nodes connections =
     (let connectedNodeIds =
            foldl (\<lambda>ids conn. insert (toNodeId conn) (insert (fromNodeId conn) ids)) {}
              connections
      in concat (map (\<lambda>node.
           (if nodeType node = bus \<or> nodeType node = switch \<or> nodeType node = fuse then []
            else if nodeId node \<notin> connectedNodeIds
            then [\<lparr>warningType = voltage_drop,
                   warningNodeIds = Some [nodeId node],
                   warningConnectionId = None,
                   warningMessage = MsgNotConnected (nodeName node)\<rparr>]
            else []))
         nodes))"

definition validateCircuit :: "ElectricalNode list \<Rightarrow> Connection list \<Rightarrow> CircuitValidation" where
  "validateCircuit nodes connections =
     (let hasBattery = list_ex (\<lambda>n. nodeType n = battery) nodes;
          errors1 =
            (if \<not> hasBattery
             then [\<lparr>errorType = no_source, errorNodeIds = None, errorConnectionId = None,
                    errorMessage = MsgNoBattery\<rparr>]
             else []);
          voltageErrors = checkVoltageMismatch nodes connections;
          errors2 = errors1 @ voltageErrors;
          disconnectedWarnings = checkDisconnectedNodes nodes connections;
          warnings1 = disconnectedWarnings;
          cableAnalyses = analyzeAllCables connections nodes;
          errors3 = errors2 @
            concat (map (\<lambda>analysis.
               (if status analysis = StatusOverload
                then [\<lparr>errorType = overcurrent, errorNodeIds = None,
                       errorConnectionId = Some (connectionId analysis),
                       errorMessage = MsgOverload (currentA analysis)\<rparr>]
                else []))
              cableAnalyses);
          warnings2 = warnings1 @
            concat (map (\<lambda>analysis.
               (if status analysis = StatusWarning
                then [\<lparr>warningType = voltage_drop, warningNodeIds = None,
                       warningConnectionId = Some (connectionId analysis),
                       warningMessage = MsgHighVoltageDrop (voltageDropPercent analysis)\<rparr>]
                else [])
               @
               (if recommendedSectionMm2 analysis > 0
                then (case find (\<lambda>c. connId c = connectionId analysis) connections of
                        Some conn \<Rightarrow>
                          (if sectionMm2 conn < recommendedSectionMm2 analysis
                           then [\<lparr>warningType = undersized_cable, warningNodeIds = None,
                                  warningConnectionId = Some (connectionId analysis),
                                  warningMessage =
                                    MsgRecommendedSection (recommendedSectionMm2 analysis)
                                      (sectionMm2 conn)\<rparr>]
                           else [])
                      | None \<Rightarrow> [])
                else []))
              cableAnalyses);
          batteryStatus = getBatteryStatus nodes DEFAULT_DAYS_AUTONOMY;
          warnings3 = warnings2 @
            (if batteryStatus = BatteryCritical
             then [\<lparr>warningType = low_battery, warningNodeIds = None,
                    warningConnectionId = None, warningMessage = MsgBatteryInsufficient\<rparr>]
             else if batteryStatus = BatteryWarning
             then [\<lparr>warningType = low_battery, warningNodeIds = None,
                    warningConnectionId = None, warningMessage = MsgBatteryLimited\<rparr>]
             else []);
          dailyConsumption = getTotalDailyConsumptionAh nodes;
          dailyProduction = getTotalDailyProductionAh nodes DEFAULT_SUN_HOURS;
          warnings4 = warnings3 @
            (if dailyProduction > 0 \<and> dailyConsumption > 0
             then (let ratio = dailyProduction / dailyConsumption
                   in if ratio < 0.8
                      then [\<lparr>warningType = unbalanced, warningNodeIds = None,
                             warningConnectionId = None,
                             warningMessage = MsgUnbalanced (mathRound (ratio * 100))\<rparr>]
                      else [])
             else [])
      in \<lparr>isValid = (length errors3 = 0), errors = errors3, warnings = warnings4\<rparr>)"

text \<open>The node ids that the connections name.\<close>

definition connectionEnds :: "Connection list \<Rightarrow> string set" where
  "connectionEnds connections = fromNodeId ` set connections \<union> toNodeId ` set connections"

text \<open>
  The loop body of \<^verbatim>\<open>isNodeConnectedToSource\<close> that pushes the neighbours of
  \<^verbatim>\<open>currentId\<close> not yet visited, one connection after the other.
\<close>

fun pushNeighbours :: "Connection list \<Rightarrow> string \<Rightarrow> string set \<Rightarrow> string list \<Rightarrow> string list" where
  "pushNeighbours [] currentId visited queue = queue"
| "pushNeighbours (conn # conns) currentId visited queue =
     (let queue1 =
            (if fromNodeId conn = currentId \<and> toNodeId conn \<notin> visited
             then queue @ [toNodeId conn] else queue);
          queue2 =
            (if toNodeId conn = currentId \<and> fromNodeId conn \<notin> visited
             then queue1 @ [fromNodeId conn] else queue1)
      in pushNeighbours conns currentId visited queue2)"

text \<open>
  The \<^verbatim>\<open>while (queue.length > 0)\<close> loop, as a function of the visited set and the
  queue. It terminates: a step either drops an id already visited from the queue or
  adds a new id, one of the finitely many that the queue and the connections name, to
  the visited set.
\<close>

function whileQueue ::
  "ElectricalNode list \<Rightarrow> Connection list \<Rightarrow> string set \<Rightarrow> string list \<Rightarrow> bool"
where
  "whileQueue nodes connections visited [] = False"
| "whileQueue nodes connections visited (currentId # queue) =
     (if currentId \<in> visited then whileQueue nodes connections visited queue
      else
        (case find (\<lambda>n. nodeId n = currentId) nodes of
           None \<Rightarrow> whileQueue nodes connections (insert currentId visited) queue
         | Some currentNode \<Rightarrow>
             (if nodeType currentNode = battery \<or> nodeType currentNode = solar
                 \<or> nodeType currentNode = alternator \<or> nodeType currentNode = charger
              then True
              else whileQueue nodes connections (insert currentId visited)
                     (pushNeighbours connections currentId (insert currentId visited) queue))))"
  by pat_completeness auto

termination
proof (relation
    "(\<lambda>(nodes, connections, visited, queue).
        card ((connectionEnds connections \<union> set queue) - visited))
     <*mlex*> measure (\<lambda>(nodes, connections, visited, queue). length queue)")
  show "wf ((\<lambda>(nodes, connections, visited, queue).
        card ((connectionEnds connections \<union> set queue) - visited))
     <*mlex*> measure (\<lambda>(nodes :: ElectricalNode list, connections :: Connection list,
          visited :: string set, queue :: string list). length queue))"
    by (simp add: wf_mlex)
next
  fix nodes :: "ElectricalNode list" and connections :: "Connection list"
    and visited :: "string set" and currentId :: string and queue :: "string list"
  assume "currentId \<in> visited"
  then have "(connectionEnds connections \<union> set queue) - visited
      = (connectionEnds connections \<union> set (currentId # queue)) - visited"
    by auto
  then show "((nodes, connections, visited, queue), nodes, connections, visited, currentId # queue)
      \<in> (\<lambda>(nodes, connections, visited, queue).
            card ((connectionEnds connections \<union> set queue) - visited))
         <*mlex*> measure (\<lambda>(nodes, connections, visited, queue). length queue)"
    by (simp add: mlex_iff)
next
  fix nodes :: "ElectricalNode list" and connections :: "Connection list"
    and visited :: "string set" and currentId :: string and queue :: "string list"
  assume fresh: "currentId \<notin> visited"
  have fin: "finite ((connectionEnds connections \<union> set (currentId # queue)) - visited)"
    by (simp add: connectionEnds_def)
  have "(connectionEnds connections \<union> set queue) - insert currentId visited
      \<subset> (connectionEnds connections \<union> set (currentId # queue)) - visited"
    using fresh by auto
  then have "card ((connectionEnds connections \<union> set queue) - insert currentId visited)
      < card ((connectionEnds connections \<union> set (currentId # queue)) - visited)"
    using fin by (rule psubset_card_mono [rotated])
  then show "((nodes, connections, insert currentId visited, queue),
        nodes, connections, visited, currentId # queue)
      \<in> (\<lambda>(nodes, connections, visited, queue).
            card ((connectionEnds connections \<union> set queue) - visited))
         <*mlex*> measure (\<lambda>(nodes, connections, visited, queue). length queue)"
    by (simp add: mlex_iff)
next
  fix nodes :: "ElectricalNode list" and connections :: "Connection list"
    and visited :: "string set" and currentId :: string and queue :: "string list"
    and currentNode :: ElectricalNode
  assume fresh: "currentId \<notin> visited"
  have pushed: "set (pushNeighbours cs c V q) \<subseteq> set q \<union> connectionEnds cs"
    for cs c V q
  proof (induction cs arbitrary: q)
    case Nil
    show ?case by simp
  next
    case (Cons a cs)
    show ?case
      using Cons [of q] Cons [of "q @ [toNodeId a]"] Cons [of "q @ [fromNodeId a]"]
        Cons [of "q @ [toNodeId a] @ [fromNodeId a]"]
      by (auto simp: Let_def connectionEnds_def)
  qed
  have fin: "finite ((connectionEnds connections \<union> set (currentId # queue)) - visited)"
    by (simp add: connectionEnds_def)
  have "(connectionEnds connections
          \<union> set (pushNeighbours connections currentId (insert currentId visited) queue))
        - insert currentId visited
      \<subset> (connectionEnds connections \<union> set (currentId # queue)) - visited"
    using fresh pushed [of connections currentId "insert currentId visited" queue] by auto
  then have "card ((connectionEnds connections
          \<union> set (pushNeighbours connections currentId (insert currentId visited) queue))
        - insert currentId visited)
      < card ((connectionEnds connections \<union> set (currentId # queue)) - visited)"
    using fin by (rule psubset_card_mono [rotated])
  then show "((nodes, connections, insert currentId visited,
         pushNeighbours connections currentId (insert currentId visited) queue),
        nodes, connections, visited, currentId # queue)
      \<in> (\<lambda>(nodes, connections, visited, queue).
            card ((connectionEnds connections \<union> set queue) - visited))
         <*mlex*> measure (\<lambda>(nodes, connections, visited, queue). length queue)"
    by (simp add: mlex_iff)
qed

definition isNodeConnectedToSource ::
  "string \<Rightarrow> ElectricalNode list \<Rightarrow> Connection list \<Rightarrow> bool"
where
  "isNodeConnectedToSource nodeId' nodes connections = whileQueue nodes connections {} [nodeId']"

definition findUnpoweredConsumers :: "ElectricalNode list \<Rightarrow> Connection list \<Rightarrow> ElectricalNode list" where
  "findUnpoweredConsumers nodes connections =
     filter (\<lambda>n. \<not> isNodeConnectedToSource (nodeId n) nodes connections)
       (filter (\<lambda>n. nodeType n = consumer) nodes)"

section \<open>The graph of the connections\<close>

text \<open>
  The notions the connectivity check is measured against. Two ids are connected when a
  connection joins them, in either direction. An id resolves to the first node of the
  array that carries it, as \<^verbatim>\<open>nodes.find\<close> does.
\<close>

definition connected :: "Connection list \<Rightarrow> string \<Rightarrow> string \<Rightarrow> bool" where
  "connected connections a b =
     list_ex (\<lambda>conn. (fromNodeId conn = a \<and> toNodeId conn = b)
                    \<or> (toNodeId conn = a \<and> fromNodeId conn = b)) connections"

definition isSourceNode :: "ElectricalNode \<Rightarrow> bool" where
  "isSourceNode n =
     (nodeType n = battery \<or> nodeType n = solar \<or> nodeType n = alternator
        \<or> nodeType n = charger)"

definition resolvesToSource :: "ElectricalNode list \<Rightarrow> string \<Rightarrow> bool" where
  "resolvesToSource nodes i =
     (case find (\<lambda>n. nodeId n = i) nodes of Some n \<Rightarrow> isSourceNode n | None \<Rightarrow> False)"

definition resolvesToOther :: "ElectricalNode list \<Rightarrow> string \<Rightarrow> bool" where
  "resolvesToOther nodes i =
     (case find (\<lambda>n. nodeId n = i) nodes of Some n \<Rightarrow> \<not> isSourceNode n | None \<Rightarrow> False)"

text \<open>
  The edges of the graph are the connections both of whose ends are ids of nodes of the
  array; a connection with a dangling end is no edge (the data model has it skipped).
\<close>

definition existingConnections :: "ElectricalNode list \<Rightarrow> Connection list \<Rightarrow> Connection list" where
  "existingConnections nodes connections =
     filter (\<lambda>conn. fromNodeId conn \<in> nodeId ` set nodes \<and> toNodeId conn \<in> nodeId ` set nodes)
       connections"

text \<open>
  A hop leaves an id that resolves to a node that is no source and follows a connection.
  A source is reachable from an id when hops lead from it to an id that resolves to a
  source; on such a chain every id resolves to a node of the array.
\<close>

definition hop :: "ElectricalNode list \<Rightarrow> Connection list \<Rightarrow> string \<Rightarrow> string \<Rightarrow> bool" where
  "hop nodes connections a b = (resolvesToOther nodes a \<and> connected connections a b)"

definition sourceReachable :: "ElectricalNode list \<Rightarrow> Connection list \<Rightarrow> string \<Rightarrow> bool" where
  "sourceReachable nodes connections i =
     (\<exists>t. (hop nodes connections)\<^sup>*\<^sup>* i t \<and> resolvesToSource nodes t)"

text \<open>Hops outside a set of ids, for the invariant of the loop.\<close>

definition hopAvoiding ::
  "ElectricalNode list \<Rightarrow> Connection list \<Rightarrow> string set \<Rightarrow> string \<Rightarrow> string \<Rightarrow> bool"
where
  "hopAvoiding nodes connections V a b = (hop nodes connections a b \<and> a \<notin> V \<and> b \<notin> V)"

text \<open>
  What the loop answers for a visited set and a queue: from an id of the queue that is not
  visited, a chain of hops outside the visited set leads to a source.
\<close>

definition reachesFrom ::
  "ElectricalNode list \<Rightarrow> Connection list \<Rightarrow> string set \<Rightarrow> string list \<Rightarrow> bool" where
  "reachesFrom nodes cs V q =
     (\<exists>x \<in> set q. \<exists>t. x \<notin> V \<and> (hopAvoiding nodes cs V)\<^sup>*\<^sup>* x t \<and> resolvesToSource nodes t)"

section \<open>Fuse recommendation panel (status of a connection)\<close>

text \<open>
  The status that the memo \<^verbatim>\<open>fuseInfos\<close> of \<^verbatim>\<open>FuseRecommendationPanel\<close> computes
  for a connection, from the connection and the analysis found for its id, if any.
\<close>

datatype FuseInfoStatus = FuseOk | FuseWarning | FuseOversized

definition fuseInfoStatus :: "Connection \<Rightarrow> CableAnalysis option \<Rightarrow> FuseInfoStatus" where
  "fuseInfoStatus conn analysis =
     (let cableSpec = getCableSpecBySection (sectionMm2 conn);
          maxCableCapacity = (case cableSpec of Some s \<Rightarrow> maxCurrentA s | None \<Rightarrow> 0);
          current = (case analysis of Some a \<Rightarrow> currentA a | None \<Rightarrow> 0)
      in if current > maxCableCapacity * 0.8 then FuseWarning
         else if current < maxCableCapacity * 0.3 \<and> sectionMm2 conn > 1.5 then FuseOversized
         else FuseOk)"

section \<open>Results about power and energy\<close>

lemma voltageValue_pos: "0 < voltageValue v"
  by (cases v) simp_all

lemma voltageValue_neq0: "voltageValue v \<noteq> 0"
  using voltageValue_pos [of v] by simp

lemma foldl_plus_sum_list:
  "foldl (\<lambda>sum n. sum + f n) (a::real) xs = a + sum_list (map f xs)"
  by (induction xs arbitrary: a) simp_all

subsection \<open>Power over voltage against current\<close>

text \<open>
  A consumer with \<^verbatim>\<open>powerW = 120\<close> and \<^verbatim>\<open>currentA = 5\<close> at 12 V:
  \<^verbatim>\<open>getNodePower\<close> answers 120 W, that is 10 A at 12 V, and
  \<^verbatim>\<open>getNodeCurrent\<close> answers 5 A.
\<close>

theorem getNodePower_both_counterexample:
  "getNodePower \<lparr>nodeId = ''c1'', nodeName = ''fridge'', voltage = V12,
          props = ConsumerProps (Present 120) (Present 5) 4 0.5\<rparr>
     / voltageValue (voltage \<lparr>nodeId = ''c1'', nodeName = ''fridge'', voltage = V12,
          props = ConsumerProps (Present 120) (Present 5) 4 0.5\<rparr>)
   \<noteq> getNodeCurrent \<lparr>nodeId = ''c1'', nodeName = ''fridge'', voltage = V12,
          props = ConsumerProps (Present 120) (Present 5) 4 0.5\<rparr>"
  by (simp add: getNodePower_def getNodeCurrent_def)

text \<open>
  C5, amended. For a consumer node, \<^verbatim>\<open>getNodePower(n) / n.voltage\<close> equals
  \<^verbatim>\<open>getNodeCurrent(n)\<close> whenever \<^verbatim>\<open>powerW\<close> and \<^verbatim>\<open>currentA\<close> are not both
  set. When both are set, \<^verbatim>\<open>getNodePower\<close> returns \<^verbatim>\<open>powerW\<close> and
  \<^verbatim>\<open>getNodeCurrent\<close> returns \<^verbatim>\<open>currentA\<close>, each its own input, and the two
  agree exactly when \<^verbatim>\<open>powerW = currentA \<times> voltage\<close>.
\<close>

theorem getNodePower_over_voltage:
  assumes "props n = ConsumerProps pw ca dh dc"
  shows "((\<nexists>p c. pw = Present p \<and> ca = Present c)
            \<longrightarrow> getNodePower n / voltageValue (voltage n) = getNodeCurrent n)
       \<and> (\<forall>p c. pw = Present p \<and> ca = Present c
            \<longrightarrow> getNodePower n = p \<and> getNodeCurrent n = c
               \<and> (getNodePower n / voltageValue (voltage n) = getNodeCurrent n
                    \<longleftrightarrow> p = c * voltageValue (voltage n)))"
  using assms voltageValue_neq0 [of "voltage n"]
  by (cases pw; cases ca)
     (auto simp: getNodePower_def getNodeCurrent_def field_simps)

theorem getNodePower_over_voltage_witness:
  "getNodePower \<lparr>nodeId = ''c1'', nodeName = ''pump'', voltage = V12,
          props = ConsumerProps Undefined (Present 10) 4 0.5\<rparr> / 12
   = getNodeCurrent \<lparr>nodeId = ''c1'', nodeName = ''pump'', voltage = V12,
          props = ConsumerProps Undefined (Present 10) 4 0.5\<rparr>
   \<and> getNodePower \<lparr>nodeId = ''c1'', nodeName = ''fridge'', voltage = V12,
          props = ConsumerProps (Present 120) (Present 10) 4 0.5\<rparr> = 120
   \<and> getNodeCurrent \<lparr>nodeId = ''c1'', nodeName = ''fridge'', voltage = V12,
          props = ConsumerProps (Present 120) (Present 10) 4 0.5\<rparr> = 10"
  using getNodePower_over_voltage [of "\<lparr>nodeId = ''c1'', nodeName = ''pump'', voltage = V12,
          props = ConsumerProps Undefined (Present 10) 4 0.5\<rparr>" Undefined "Present 10" 4 "0.5"]
    getNodePower_over_voltage [of "\<lparr>nodeId = ''c1'', nodeName = ''fridge'', voltage = V12,
          props = ConsumerProps (Present 120) (Present 10) 4 0.5\<rparr>"
        "Present 120" "Present 10" 4 "0.5"]
  by simp

subsection \<open>Daily production\<close>

text \<open>
  A single 120 W shore charger at 12 V, plugged in for the 8 hours that the comment of
  \<^verbatim>\<open>getChargerDailyAh\<close> supposes, yields 80 Ah; the total production of this node
  array is 0.
\<close>

theorem getTotalDailyProductionAh_charger_counterexample:
  "getTotalDailyProductionAh
     [\<lparr>nodeId = ''ch1'', nodeName = ''shore charger'', voltage = V12,
       props = ChargerProps 120\<rparr>] 5
   \<noteq> getTotalSolarDailyAh
     [\<lparr>nodeId = ''ch1'', nodeName = ''shore charger'', voltage = V12,
       props = ChargerProps 120\<rparr>] 5
    + getTotalAlternatorDailyAh
     [\<lparr>nodeId = ''ch1'', nodeName = ''shore charger'', voltage = V12,
       props = ChargerProps 120\<rparr>]
    + getChargerDailyAh
     \<lparr>nodeId = ''ch1'', nodeName = ''shore charger'', voltage = V12,
       props = ChargerProps 120\<rparr> 8"
  by (simp add: getTotalDailyProductionAh_def getTotalSolarDailyAh_def
      getTotalAlternatorDailyAh_def getChargerDailyAh_def nodeType_def)

text \<open>
  C4, amended. For every node array and every \<^verbatim>\<open>sunHours\<close>, the total daily
  production is the sum of the daily yields of the solar nodes and of the alternator
  nodes only. Charger nodes never change it: removing them leaves the total as it is, and
  the total equals the sum over solar, alternator and charger nodes only with the charger
  yields taken at the default \<^verbatim>\<open>hoursPlugged = 0\<close>, where each is 0.
\<close>

theorem getTotalDailyProductionAh_solar_alternator:
  "getTotalDailyProductionAh nodes sunHours
     = sum_list (map (\<lambda>n. getSolarDailyAh n sunHours) (filter (\<lambda>n. nodeType n = solar) nodes))
       + sum_list (map getAlternatorDailyAh (filter (\<lambda>n. nodeType n = alternator) nodes))
   \<and> getTotalDailyProductionAh (filter (\<lambda>n. nodeType n \<noteq> charger) nodes) sunHours
     = getTotalDailyProductionAh nodes sunHours
   \<and> getTotalDailyProductionAh nodes sunHours
     = getTotalSolarDailyAh nodes sunHours + getTotalAlternatorDailyAh nodes
       + sum_list (map (\<lambda>n. getChargerDailyAh n 0) (filter (\<lambda>n. nodeType n = charger) nodes))"
proof (intro conjI)
  show "getTotalDailyProductionAh nodes sunHours
     = sum_list (map (\<lambda>n. getSolarDailyAh n sunHours) (filter (\<lambda>n. nodeType n = solar) nodes))
       + sum_list (map getAlternatorDailyAh (filter (\<lambda>n. nodeType n = alternator) nodes))"
    by (simp add: getTotalDailyProductionAh_def getTotalSolarDailyAh_def
        getTotalAlternatorDailyAh_def foldl_plus_sum_list)
next
  have f1: "filter (\<lambda>n. nodeType n \<noteq> charger \<and> nodeType n = solar) nodes
      = filter (\<lambda>n. nodeType n = solar) nodes"
    by (rule filter_cong) auto
  have f2: "filter (\<lambda>n. nodeType n \<noteq> charger \<and> nodeType n = alternator) nodes
      = filter (\<lambda>n. nodeType n = alternator) nodes"
    by (rule filter_cong) auto
  show "getTotalDailyProductionAh (filter (\<lambda>n. nodeType n \<noteq> charger) nodes) sunHours
     = getTotalDailyProductionAh nodes sunHours"
    by (simp add: getTotalDailyProductionAh_def getTotalSolarDailyAh_def
        getTotalAlternatorDailyAh_def f1 f2)
next
  have "getChargerDailyAh n 0 = 0" for n
    by (cases "props n") (simp_all add: getChargerDailyAh_def)
  then have "sum_list (map (\<lambda>n. getChargerDailyAh n 0) (filter (\<lambda>n. nodeType n = charger) nodes)) = 0"
    by simp
  then show "getTotalDailyProductionAh nodes sunHours
     = getTotalSolarDailyAh nodes sunHours + getTotalAlternatorDailyAh nodes
       + sum_list (map (\<lambda>n. getChargerDailyAh n 0) (filter (\<lambda>n. nodeType n = charger) nodes))"
    by (simp add: getTotalDailyProductionAh_def)
qed

section \<open>Results about battery sizing\<close>

lemma batteryStep_additive:
  "foldl (\<lambda>sum n.
        (case props n of
           BatteryProps capacityAh chem qty configuration \<Rightarrow>
             (let quantity = orDefault qty 1;
                  config = (case configuration of Absent \<Rightarrow> Present parallel | c \<Rightarrow> c)
              in if config = Present parallel
                 then sum + capacityAh * quantity
                 else sum + capacityAh)
         | _ \<Rightarrow> sum)) a xs
   = a + foldl (\<lambda>sum n.
        (case props n of
           BatteryProps capacityAh chem qty configuration \<Rightarrow>
             (let quantity = orDefault qty 1;
                  config = (case configuration of Absent \<Rightarrow> Present parallel | c \<Rightarrow> c)
              in if config = Present parallel
                 then sum + capacityAh * quantity
                 else sum + capacityAh)
         | _ \<Rightarrow> sum)) 0 xs"
proof (induction xs arbitrary: a)
  case Nil
  show ?case by simp
next
  case (Cons x xs)
  show ?case
    by (subst (1 2) foldl_Cons, subst Cons.IH, subst (2) Cons.IH)
       (simp add: Let_def split: NodeSpecificProps.splits)
qed

lemma getTotalBatteryCapacityAh_append:
  "getTotalBatteryCapacityAh (xs @ ys) = getTotalBatteryCapacityAh xs + getTotalBatteryCapacityAh ys"
  unfolding getTotalBatteryCapacityAh_def filter_append foldl_append
  by (rule batteryStep_additive)

lemma getTotalBatteryCapacityAh_Cons:
  "getTotalBatteryCapacityAh (x # ys) = getTotalBatteryCapacityAh [x] + getTotalBatteryCapacityAh ys"
  using getTotalBatteryCapacityAh_append [of "[x]" ys] by simp

text \<open>
  C6. \<^verbatim>\<open>getTotalBatteryCapacityAh\<close> adds, for a battery node anywhere in the array,
  \<^verbatim>\<open>capacityAh \<times> quantity\<close> (quantity 1 when not given) when its configuration is
  parallel or the key is absent, and \<^verbatim>\<open>capacityAh\<close> once, whatever the quantity, when
  it is series; a node of another type adds nothing. So the total is linear in the quantity
  of a parallel bank and does not depend on the quantity of a series bank.
\<close>

theorem getTotalBatteryCapacityAh_adds:
  "(props b = BatteryProps cap chem qty cfg \<longrightarrow>
      (cfg = Present parallel \<or> cfg = Absent \<longrightarrow>
         getTotalBatteryCapacityAh (ns1 @ b # ns2)
           = getTotalBatteryCapacityAh ns1 + cap * orDefault qty 1 + getTotalBatteryCapacityAh ns2)
    \<and> (cfg = Present series \<longrightarrow>
         getTotalBatteryCapacityAh (ns1 @ b # ns2)
           = getTotalBatteryCapacityAh ns1 + cap + getTotalBatteryCapacityAh ns2))
   \<and> (nodeType n \<noteq> battery \<longrightarrow>
         getTotalBatteryCapacityAh (ns1 @ n # ns2)
           = getTotalBatteryCapacityAh ns1 + getTotalBatteryCapacityAh ns2)
   \<and> getTotalBatteryCapacityAh [] = 0"
proof -
  have split: "getTotalBatteryCapacityAh (ns1 @ x # ns2)
      = getTotalBatteryCapacityAh ns1 + getTotalBatteryCapacityAh [x] + getTotalBatteryCapacityAh ns2"
    for x
    using getTotalBatteryCapacityAh_append [of ns1 "x # ns2"]
      getTotalBatteryCapacityAh_Cons [of x ns2] by simp
  have par: "getTotalBatteryCapacityAh [b] = cap * orDefault qty 1"
    if "props b = BatteryProps cap chem qty cfg" "cfg = Present parallel \<or> cfg = Absent"
    for b cap chem qty cfg
    using that by (auto simp: getTotalBatteryCapacityAh_def nodeType_def)
  have ser: "getTotalBatteryCapacityAh [b] = cap"
    if "props b = BatteryProps cap chem qty cfg" "cfg = Present series"
    for b cap chem qty cfg
    using that by (auto simp: getTotalBatteryCapacityAh_def nodeType_def)
  have other: "getTotalBatteryCapacityAh [n] = 0" if "nodeType n \<noteq> battery" for n
    using that by (simp add: getTotalBatteryCapacityAh_def)
  show ?thesis
    by (simp add: split par ser other) (simp add: getTotalBatteryCapacityAh_def)
qed

theorem getTotalBatteryCapacityAh_adds_witness:
  "getTotalBatteryCapacityAh
     [\<lparr>nodeId = ''b1'', nodeName = ''house bank'', voltage = V12,
       props = BatteryProps 100 agm (Present 2) (Present parallel)\<rparr>] = 200
   \<and> getTotalBatteryCapacityAh
     [\<lparr>nodeId = ''b2'', nodeName = ''bank'', voltage = V12,
       props = BatteryProps 100 agm (Present 2) Absent\<rparr>] = 200
   \<and> getTotalBatteryCapacityAh
     [\<lparr>nodeId = ''b3'', nodeName = ''24 V bank'', voltage = V24,
       props = BatteryProps 100 agm (Present 2) (Present series)\<rparr>] = 100
   \<and> getTotalBatteryCapacityAh
     [\<lparr>nodeId = ''s1'', nodeName = ''panel'', voltage = V12,
       props = SolarProps 100 Absent Absent\<rparr>] = 0"
  using
    getTotalBatteryCapacityAh_adds [of
      "\<lparr>nodeId = ''b1'', nodeName = ''house bank'', voltage = V12,
        props = BatteryProps 100 agm (Present 2) (Present parallel)\<rparr>"
      100 agm "Present 2" "Present parallel" "[]" "[]"
      "\<lparr>nodeId = ''s1'', nodeName = ''panel'', voltage = V12,
        props = SolarProps 100 Absent Absent\<rparr>"]
    getTotalBatteryCapacityAh_adds [of
      "\<lparr>nodeId = ''b2'', nodeName = ''bank'', voltage = V12,
        props = BatteryProps 100 agm (Present 2) Absent\<rparr>"
      100 agm "Present 2" Absent "[]" "[]"
      "\<lparr>nodeId = ''s1'', nodeName = ''panel'', voltage = V12,
        props = SolarProps 100 Absent Absent\<rparr>"]
    getTotalBatteryCapacityAh_adds [of
      "\<lparr>nodeId = ''b3'', nodeName = ''24 V bank'', voltage = V24,
        props = BatteryProps 100 agm (Present 2) (Present series)\<rparr>"
      100 agm "Present 2" "Present series" "[]" "[]"
      "\<lparr>nodeId = ''s1'', nodeName = ''panel'', voltage = V12,
        props = SolarProps 100 Absent Absent\<rparr>"]
  by (simp add: nodeType_def)

text \<open>
  A configuration key that is there with the value \<^verbatim>\<open>undefined\<close> is neither case:
  the source then takes the branch of series.
\<close>

lemma getTotalBatteryCapacityAh_undefined_configuration:
  "props b = BatteryProps cap chem qty Undefined \<Longrightarrow> getTotalBatteryCapacityAh [b] = cap"
  by (simp add: getTotalBatteryCapacityAh_def nodeType_def)

section \<open>Results about circuit validation\<close>

subsection \<open>Validity\<close>

text \<open>
  C10. \<^verbatim>\<open>validateCircuit\<close> returns \<^verbatim>\<open>isValid = true\<close> exactly when its list of
  errors is empty. That list is empty exactly when there is a battery, no voltage mismatch
  and no overloaded cable, whatever the warnings are, and it holds errors of the types
  \<^verbatim>\<open>no_source\<close>, \<^verbatim>\<open>voltage_mismatch\<close> and \<^verbatim>\<open>overcurrent\<close> only.
\<close>

theorem validateCircuit_isValid:
  "isValid (validateCircuit nodes connections) = (errors (validateCircuit nodes connections) = [])
   \<and> (errors (validateCircuit nodes connections) = []
        \<longleftrightarrow> list_ex (\<lambda>n. nodeType n = battery) nodes
            \<and> checkVoltageMismatch nodes connections = []
            \<and> (\<forall>a \<in> set (analyzeAllCables connections nodes). status a \<noteq> StatusOverload))
   \<and> (\<forall>e \<in> set (errors (validateCircuit nodes connections)).
         errorType e = no_source \<or> errorType e = voltage_mismatch \<or> errorType e = overcurrent)"
proof (intro conjI)
  show "isValid (validateCircuit nodes connections) = (errors (validateCircuit nodes connections) = [])"
    by (simp add: validateCircuit_def Let_def)
next
  show "errors (validateCircuit nodes connections) = []
        \<longleftrightarrow> list_ex (\<lambda>n. nodeType n = battery) nodes
            \<and> checkVoltageMismatch nodes connections = []
            \<and> (\<forall>a \<in> set (analyzeAllCables connections nodes). status a \<noteq> StatusOverload)"
    by (auto simp: validateCircuit_def Let_def)
next
  show "\<forall>e \<in> set (errors (validateCircuit nodes connections)).
         errorType e = no_source \<or> errorType e = voltage_mismatch \<or> errorType e = overcurrent"
    by (auto simp: validateCircuit_def Let_def checkVoltageMismatch_def
        split: option.splits if_splits)
qed

theorem validateCircuit_isValid_witness:
  "isValid (validateCircuit
      [\<lparr>nodeId = ''b1'', nodeName = ''house bank'', voltage = V12,
        props = BatteryProps 100 agm Absent Absent\<rparr>] [])
   \<and> warnings (validateCircuit
      [\<lparr>nodeId = ''b1'', nodeName = ''house bank'', voltage = V12,
        props = BatteryProps 100 agm Absent Absent\<rparr>] []) \<noteq> []
   \<and> \<not> isValid (validateCircuit [] [])"
  using
    validateCircuit_isValid [of
      "[\<lparr>nodeId = ''b1'', nodeName = ''house bank'', voltage = V12,
         props = BatteryProps 100 agm Absent Absent\<rparr>]" "[]"]
    validateCircuit_isValid [of "[]" "[]"]
  by (simp add: validateCircuit_def checkVoltageMismatch_def analyzeAllCables_def
      checkDisconnectedNodes_def nodeType_def Let_def)


subsection \<open>Looking nodes up by id\<close>

lemma find_append_case:
  "find P (xs @ ys) = (case find P xs of None \<Rightarrow> find P ys | Some x \<Rightarrow> Some x)"
  by (induction xs) simp_all

lemma find_Some_set: "find P xs = Some x \<Longrightarrow> x \<in> set xs \<and> P x"
  by (induction xs) (auto split: if_splits)

lemma foldl_nodeMap:
  "foldl (\<lambda>m n. m(nodeId n \<mapsto> n)) m0 nodes k
     = (case find (\<lambda>n. nodeId n = k) (rev nodes) of Some n \<Rightarrow> Some n | None \<Rightarrow> m0 k)"
  by (induction nodes arbitrary: m0) (simp_all add: find_append_case split: option.splits)

lemma nodeMap_find: "nodeMap nodes k = find (\<lambda>n. nodeId n = k) (rev nodes)"
  by (simp add: nodeMap_def foldl_nodeMap split: option.splits)

lemma nodeMap_None: "nodeMap nodes k = None \<longleftrightarrow> k \<notin> nodeId ` set nodes"
  by (auto simp: nodeMap_find find_None_iff)

lemma nodeMap_Some: "nodeMap nodes k = Some n \<Longrightarrow> n \<in> set nodes \<and> nodeId n = k"
proof -
  assume "nodeMap nodes k = Some n"
  then have "find (\<lambda>n. nodeId n = k) (rev nodes) = Some n" by (simp add: nodeMap_find)
  then have "n \<in> set (rev nodes) \<and> nodeId n = k"
    by (rule find_Some_set)
  then show ?thesis by simp
qed

subsection \<open>Voltage mismatch\<close>

lemma checkVoltageMismatch_types:
  "e \<in> set (checkVoltageMismatch nodes connections) \<Longrightarrow> errorType e = voltage_mismatch"
  by (auto simp: checkVoltageMismatch_def split: option.splits if_splits)

lemma errors_filter_voltage_mismatch:
  "filter (\<lambda>e. errorType e = voltage_mismatch) (errors (validateCircuit nodes connections))
     = checkVoltageMismatch nodes connections"
proof -
  have a: "filter (\<lambda>e. errorType e = voltage_mismatch) (checkVoltageMismatch nodes connections)
      = checkVoltageMismatch nodes connections"
    by (simp add: checkVoltageMismatch_types)
  have b: "filter (\<lambda>e. errorType e = voltage_mismatch)
       (concat (map (\<lambda>analysis.
               (if status analysis = StatusOverload
                then [\<lparr>errorType = overcurrent, errorNodeIds = None,
                       errorConnectionId = Some (connectionId analysis),
                       errorMessage = MsgOverload (currentA analysis)\<rparr>]
                else [])) xs)) = []" for xs
    by (induction xs) simp_all
  show ?thesis
    by (simp add: validateCircuit_def Let_def a b)
qed

text \<open>
  C1. For every connection whose two endpoint nodes both exist (the node map resolves both
  ids) and have different voltages, \<^verbatim>\<open>validateCircuit\<close> emits a
  \<^verbatim>\<open>voltage_mismatch\<close> error carrying both node ids and the connection id, and the
  circuit is not valid. In particular, for a 12 V battery node and a 24 V consumer node
  with different ids, in either order, and one connection between them, in either
  direction, the errors hold exactly one \<^verbatim>\<open>voltage_mismatch\<close> error, which names
  both node ids and the connection id, and \<^verbatim>\<open>isValid\<close> is false.
\<close>

theorem validateCircuit_voltage_mismatch:
  "(conn \<in> set connections \<and> nodeMap nodes (fromNodeId conn) = Some f
      \<and> nodeMap nodes (toNodeId conn) = Some t \<and> voltage f \<noteq> voltage t
    \<longrightarrow> \<lparr>errorType = voltage_mismatch,
          errorNodeIds = Some [nodeId f, nodeId t],
          errorConnectionId = Some (connId conn),
          errorMessage = MsgVoltageMismatch (voltage f) (voltage t)\<rparr>
          \<in> set (errors (validateCircuit nodes connections))
        \<and> nodeId f = fromNodeId conn \<and> nodeId t = toNodeId conn
        \<and> \<not> isValid (validateCircuit nodes connections))
   \<and> (nodeType b = battery \<and> voltage b = V12 \<and> nodeType c = consumer \<and> voltage c = V24
      \<and> nodeId b \<noteq> nodeId c \<and> (ns = [b, c] \<or> ns = [c, b])
      \<and> (fromNodeId k = nodeId b \<and> toNodeId k = nodeId c
           \<or> fromNodeId k = nodeId c \<and> toNodeId k = nodeId b)
    \<longrightarrow> (\<exists>e. filter (\<lambda>e. errorType e = voltage_mismatch) (errors (validateCircuit ns [k])) = [e]
            \<and> errorNodeIds e = Some [fromNodeId k, toNodeId k]
            \<and> errorConnectionId e = Some (connId k))
        \<and> \<not> isValid (validateCircuit ns [k]))"
proof (intro conjI impI)
  assume h: "conn \<in> set connections \<and> nodeMap nodes (fromNodeId conn) = Some f
      \<and> nodeMap nodes (toNodeId conn) = Some t \<and> voltage f \<noteq> voltage t"
  let ?e = "\<lparr>errorType = voltage_mismatch,
          errorNodeIds = Some [nodeId f, nodeId t],
          errorConnectionId = Some (connId conn),
          errorMessage = MsgVoltageMismatch (voltage f) (voltage t)\<rparr>"
  from h have "?e \<in> set (checkVoltageMismatch nodes connections)"
    by (force simp: checkVoltageMismatch_def)
  then show in_errors: "?e \<in> set (errors (validateCircuit nodes connections))"
    by (simp add: validateCircuit_def Let_def)
  show "nodeId f = fromNodeId conn" using h nodeMap_Some by blast
  show "nodeId t = toNodeId conn" using h nodeMap_Some by blast
  from in_errors have "errors (validateCircuit nodes connections) \<noteq> []" by auto
  then show "\<not> isValid (validateCircuit nodes connections)"
    by (simp add: validateCircuit_def Let_def)
next
  assume h: "nodeType b = battery \<and> voltage b = V12 \<and> nodeType c = consumer \<and> voltage c = V24
      \<and> nodeId b \<noteq> nodeId c \<and> (ns = [b, c] \<or> ns = [c, b])
      \<and> (fromNodeId k = nodeId b \<and> toNodeId k = nodeId c
           \<or> fromNodeId k = nodeId c \<and> toNodeId k = nodeId b)"
  then have lookups: "nodeMap ns (nodeId b) = Some b" "nodeMap ns (nodeId c) = Some c"
    by (auto simp: nodeMap_def)
  from h lookups have one: "\<exists>e. checkVoltageMismatch ns [k] = [e]
            \<and> errorNodeIds e = Some [fromNodeId k, toNodeId k]
            \<and> errorConnectionId e = Some (connId k)"
    by (auto simp: checkVoltageMismatch_def)
  then show "\<exists>e. filter (\<lambda>e. errorType e = voltage_mismatch) (errors (validateCircuit ns [k])) = [e]
            \<and> errorNodeIds e = Some [fromNodeId k, toNodeId k]
            \<and> errorConnectionId e = Some (connId k)"
    by (simp only: errors_filter_voltage_mismatch)
  from one have "checkVoltageMismatch ns [k] \<noteq> []" by auto
  then show "\<not> isValid (validateCircuit ns [k])"
    by (simp add: validateCircuit_def Let_def)
qed

theorem validateCircuit_voltage_mismatch_witness:
  "(\<exists>e. filter (\<lambda>e. errorType e = voltage_mismatch)
          (errors (validateCircuit
             [\<lparr>nodeId = ''b1'', nodeName = ''house bank'', voltage = V12,
                props = BatteryProps 100 agm Absent Absent\<rparr>,
              \<lparr>nodeId = ''c1'', nodeName = ''winch'', voltage = V24,
                props = ConsumerProps (Present 240) Undefined 1 1\<rparr>]
             [\<lparr>connId = ''k1'', fromNodeId = ''b1'', toNodeId = ''c1'',
                sectionMm2 = 2.5, lengthM = 3\<rparr>])) = [e]
        \<and> errorNodeIds e = Some [''b1'', ''c1'']
        \<and> errorConnectionId e = Some ''k1'')
   \<and> \<not> isValid (validateCircuit
             [\<lparr>nodeId = ''b1'', nodeName = ''house bank'', voltage = V12,
                props = BatteryProps 100 agm Absent Absent\<rparr>,
              \<lparr>nodeId = ''c1'', nodeName = ''winch'', voltage = V24,
                props = ConsumerProps (Present 240) Undefined 1 1\<rparr>]
             [\<lparr>connId = ''k1'', fromNodeId = ''b1'', toNodeId = ''c1'',
                sectionMm2 = 2.5, lengthM = 3\<rparr>])"
  using validateCircuit_voltage_mismatch [where
      conn = "\<lparr>connId = ''k1'', fromNodeId = ''b1'', toNodeId = ''c1'',
                sectionMm2 = 2.5, lengthM = 3\<rparr>"
      and connections = "[\<lparr>connId = ''k1'', fromNodeId = ''b1'', toNodeId = ''c1'',
                sectionMm2 = 2.5, lengthM = 3\<rparr>]"
      and nodes = "[\<lparr>nodeId = ''b1'', nodeName = ''house bank'', voltage = V12,
                props = BatteryProps 100 agm Absent Absent\<rparr>,
              \<lparr>nodeId = ''c1'', nodeName = ''winch'', voltage = V24,
                props = ConsumerProps (Present 240) Undefined 1 1\<rparr>]"
      and f = "\<lparr>nodeId = ''b1'', nodeName = ''house bank'', voltage = V12,
                props = BatteryProps 100 agm Absent Absent\<rparr>"
      and t = "\<lparr>nodeId = ''c1'', nodeName = ''winch'', voltage = V24,
                props = ConsumerProps (Present 240) Undefined 1 1\<rparr>"
      and b = "\<lparr>nodeId = ''b1'', nodeName = ''house bank'', voltage = V12,
                props = BatteryProps 100 agm Absent Absent\<rparr>"
      and c = "\<lparr>nodeId = ''c1'', nodeName = ''winch'', voltage = V24,
                props = ConsumerProps (Present 240) Undefined 1 1\<rparr>"
      and ns = "[\<lparr>nodeId = ''b1'', nodeName = ''house bank'', voltage = V12,
                props = BatteryProps 100 agm Absent Absent\<rparr>,
              \<lparr>nodeId = ''c1'', nodeName = ''winch'', voltage = V24,
                props = ConsumerProps (Present 240) Undefined 1 1\<rparr>]"
      and k = "\<lparr>connId = ''k1'', fromNodeId = ''b1'', toNodeId = ''c1'',
                sectionMm2 = 2.5, lengthM = 3\<rparr>"]
  by (simp add: nodeType_def nodeMap_def)

subsection \<open>Dangling connections\<close>

text \<open>
  C9. A connection whose \<^verbatim>\<open>fromNodeId\<close> or \<^verbatim>\<open>toNodeId\<close> matches no node of the
  array, anywhere in the connection array: \<^verbatim>\<open>analyzeAllCables\<close> returns for it the
  zero-valued row (current, voltage drop, percentage and power loss 0, status ok) between
  the rows of the other connections, and the voltage-mismatch check gives what it gives
  without that connection. Both functions are total here as in the source, which has no
  statement that throws.
\<close>

theorem dangling_connection_skipped:
  "fromNodeId conn \<notin> nodeId ` set nodes \<or> toNodeId conn \<notin> nodeId ` set nodes \<Longrightarrow>
     analyzeAllCables (cs1 @ conn # cs2) nodes
       = analyzeAllCables cs1 nodes
         @ \<lparr>connectionId = connId conn, currentA = 0, voltageDrop = 0, voltageDropPercent = 0,
            powerLossW = 0, recommendedSectionMm2 = 0.5, status = StatusOk\<rparr>
         # analyzeAllCables cs2 nodes
     \<and> checkVoltageMismatch nodes (cs1 @ conn # cs2) = checkVoltageMismatch nodes (cs1 @ cs2)"
  by (auto simp: analyzeAllCables_def checkVoltageMismatch_def nodeMap_None [symmetric]
      split: option.splits)

theorem dangling_connection_skipped_witness:
  "analyzeAllCables
     [\<lparr>connId = ''k1'', fromNodeId = ''b1'', toNodeId = ''ghost'', sectionMm2 = 2.5, lengthM = 3\<rparr>]
     [\<lparr>nodeId = ''b1'', nodeName = ''house bank'', voltage = V12,
       props = BatteryProps 100 agm Absent Absent\<rparr>]
    = [\<lparr>connectionId = ''k1'', currentA = 0, voltageDrop = 0, voltageDropPercent = 0,
        powerLossW = 0, recommendedSectionMm2 = 0.5, status = StatusOk\<rparr>]
   \<and> checkVoltageMismatch
     [\<lparr>nodeId = ''b1'', nodeName = ''house bank'', voltage = V12,
       props = BatteryProps 100 agm Absent Absent\<rparr>]
     [\<lparr>connId = ''k1'', fromNodeId = ''b1'', toNodeId = ''ghost'', sectionMm2 = 2.5, lengthM = 3\<rparr>]
    = []"
  using dangling_connection_skipped [of
      "\<lparr>connId = ''k1'', fromNodeId = ''b1'', toNodeId = ''ghost'', sectionMm2 = 2.5, lengthM = 3\<rparr>"
      "[\<lparr>nodeId = ''b1'', nodeName = ''house bank'', voltage = V12,
         props = BatteryProps 100 agm Absent Absent\<rparr>]" "[]" "[]"]
  by (simp add: analyzeAllCables_def checkVoltageMismatch_def)


section \<open>Results about cable analysis\<close>

subsection \<open>The current of a cable\<close>

text \<open>
  What the first block of \<^verbatim>\<open>analyzeCable\<close> computes: a consumer at either end comes
  first (the one at the from end when both are), then a battery at the from end; a
  battery at the to end is not looked at.
\<close>

lemma analyzeCableCurrentA_source:
  "analyzeCableCurrentA fromNode toNode =
     (if nodeType fromNode = consumer then getNodeCurrent fromNode
      else if nodeType toNode = consumer then getNodeCurrent toNode
      else case props fromNode of BatteryProps cap chem qty cfg \<Rightarrow> cap / 5 | _ \<Rightarrow> 0)"
  by (simp add: analyzeCableCurrentA_def)

lemma analyzeCableCurrentA_battery_to:
  "nodeType fromNode \<noteq> consumer \<Longrightarrow> nodeType fromNode \<noteq> battery
     \<Longrightarrow> nodeType toNode \<noteq> consumer \<Longrightarrow> analyzeCableCurrentA fromNode toNode = 0"
  by (cases "props fromNode") (simp_all add: analyzeCableCurrentA_def nodeType_def)

text \<open>
  C3. The specification gives the current \<^verbatim>\<open>capacityAh / 5\<close> to a connection without a
  consumer whenever one of its two ends is a battery. The source does so for a battery at
  the from end only: a connection from a bus to a 100 Ah battery gets the current 0, the
  same connection drawn from the battery to the bus gets 20 A.
\<close>

theorem analyzeCable_battery_at_to_end:
  "analyzeCableCurrentA
      \<lparr>nodeId = ''bus1'', nodeName = ''main bus'', voltage = V12, props = BusProps 100\<rparr>
      \<lparr>nodeId = ''b1'', nodeName = ''house bank'', voltage = V12,
        props = BatteryProps 100 agm Absent Absent\<rparr> = 0
   \<and> currentA (analyzeCable
      \<lparr>connId = ''k1'', fromNodeId = ''bus1'', toNodeId = ''b1'', sectionMm2 = 10, lengthM = 2\<rparr>
      \<lparr>nodeId = ''bus1'', nodeName = ''main bus'', voltage = V12, props = BusProps 100\<rparr>
      \<lparr>nodeId = ''b1'', nodeName = ''house bank'', voltage = V12,
        props = BatteryProps 100 agm Absent Absent\<rparr>) = 0
   \<and> analyzeCableCurrentA
      \<lparr>nodeId = ''b1'', nodeName = ''house bank'', voltage = V12,
        props = BatteryProps 100 agm Absent Absent\<rparr>
      \<lparr>nodeId = ''bus1'', nodeName = ''main bus'', voltage = V12, props = BusProps 100\<rparr> = 20
   \<and> currentA (analyzeCable
      \<lparr>connId = ''k1'', fromNodeId = ''b1'', toNodeId = ''bus1'', sectionMm2 = 10, lengthM = 2\<rparr>
      \<lparr>nodeId = ''b1'', nodeName = ''house bank'', voltage = V12,
        props = BatteryProps 100 agm Absent Absent\<rparr>
      \<lparr>nodeId = ''bus1'', nodeName = ''main bus'', voltage = V12, props = BusProps 100\<rparr>) = 20"
  by (simp add: analyzeCable_def analyzeCableCurrentA_def nodeType_def Let_def mathRound_def)

subsection \<open>The recommended section against overload\<close>

lemma cableStandards_monotone:
  "\<forall>r \<in> set cableStandards. \<forall>r' \<in> set cableStandards.
     specSectionMm2 r \<le> specSectionMm2 r' \<longrightarrow> maxCurrentA r \<le> maxCurrentA r'"
  by (simp add: cableStandards_def mkSpec_def)

lemma cableStandards_bounds:
  "\<forall>r \<in> set cableStandards. specSectionMm2 r \<le> 120 \<and> 3 \<le> maxCurrentA r \<and> maxCurrentA r \<le> 310
      \<and> 0.5 \<le> specSectionMm2 r"
  by (simp add: cableStandards_def mkSpec_def)

lemma last_cableStandards: "last cableStandards = mkSpec 120 310 250 0.153"
  by (simp add: cableStandards_def)

lemma last_cableStandards_in: "last cableStandards \<in> set cableStandards"
  by (simp add: cableStandards_def)

lemma find_None_set: "find P xs = None \<Longrightarrow> x \<in> set xs \<Longrightarrow> \<not> P x"
  by (induction xs) (auto split: if_splits)

lemma find_section_in_table:
  assumes "r \<in> set cableStandards"
  shows "\<exists>r'. find (\<lambda>s. specSectionMm2 s = specSectionMm2 r) cableStandards = Some r'
           \<and> r' \<in> set cableStandards \<and> specSectionMm2 r' = specSectionMm2 r"
proof (cases "find (\<lambda>s. specSectionMm2 s = specSectionMm2 r) cableStandards")
  case None
  from find_None_set [OF None assms] show ?thesis by simp
next
  case (Some r')
  with find_Some_set [OF Some] show ?thesis by simp
qed

lemma getRecommendedSection_row:
  assumes "currentA' * 1.25 \<le> 310"
  shows "\<exists>r \<in> set cableStandards.
           getRecommendedSection currentA' len v maxDrop = specSectionMm2 r
           \<and> currentA' * 1.25 \<le> maxCurrentA r"
proof -
  let ?P = "\<lambda>s. maxCurrentA s \<ge> currentA' * 1.25"
  have "?P (last cableStandards)"
    using assms by (simp add: last_cableStandards mkSpec_def)
  with find_None_set [of ?P cableStandards "last cableStandards"] last_cableStandards_in
  obtain sfc where sfc: "find ?P cableStandards = Some sfc"
    by (cases "find ?P cableStandards") auto
  from find_Some_set [OF sfc] have sfc_in: "sfc \<in> set cableStandards" and sfc_ok: "?P sfc"
    by simp_all
  let ?min = "xmax (calculateMinSection currentA' len v maxDrop) (specSectionMm2 sfc)"
  let ?Q = "\<lambda>s. geX (specSectionMm2 s) ?min"
  have rec: "getRecommendedSection currentA' len v maxDrop
      = (case find ?Q cableStandards of Some s \<Rightarrow> specSectionMm2 s
         | None \<Rightarrow> specSectionMm2 (last cableStandards))"
    by (simp only: getRecommendedSection_def Let_def sfc option.case)
  have ge: "specSectionMm2 s \<ge> specSectionMm2 sfc" if "?Q s" for s
    using that by (cases "calculateMinSection currentA' len v maxDrop") simp_all
  show ?thesis
  proof (cases "find ?Q cableStandards")
    case None
    have "specSectionMm2 sfc \<le> specSectionMm2 (last cableStandards)"
      using cableStandards_bounds sfc_in by (simp add: last_cableStandards mkSpec_def)
    with cableStandards_monotone sfc_in last_cableStandards_in
    have "maxCurrentA sfc \<le> maxCurrentA (last cableStandards)" by blast
    with sfc_ok rec None last_cableStandards_in show ?thesis
      by (intro bexI [of _ "last cableStandards"]) simp_all
  next
    case (Some s)
    from find_Some_set [OF Some] have s_in: "s \<in> set cableStandards" and Qs: "?Q s"
      by simp_all
    from ge [OF Qs] have "specSectionMm2 sfc \<le> specSectionMm2 s" .
    with cableStandards_monotone sfc_in s_in
    have "maxCurrentA sfc \<le> maxCurrentA s" by blast
    with sfc_ok rec Some s_in show ?thesis
      by (intro bexI [of _ s]) simp_all
  qed
qed

text \<open>
  Where a row of the table is rated for \<open>current \<times> 1.25\<close>, that is up to 248 A, the
  recommended section is a section of the table rated for at least that, and the cable
  installed with it is not overloaded.
\<close>

lemma getRecommendedSection_carries_current:
  assumes "currentA' * 1.25 \<le> 310"
  shows "(\<exists>r. getCableSpecBySection (getRecommendedSection currentA' len v maxDrop) = Some r
            \<and> currentA' * 1.25 \<le> maxCurrentA r \<and> currentA' \<le> maxCurrentA r)
       \<and> (analyzeCableCurrentA fromNode toNode = currentA'
            \<and> sectionMm2 conn
                = getRecommendedSection currentA' (lengthM conn) (voltageValue (voltage fromNode))
                    MAX_VOLTAGE_DROP_PERCENT
          \<longrightarrow> status (analyzeCable conn fromNode toNode) \<noteq> StatusOverload)"
proof -
  have spec: "\<exists>r. getCableSpecBySection (getRecommendedSection currentA' l v' m) = Some r
            \<and> currentA' * 1.25 \<le> maxCurrentA r \<and> currentA' \<le> maxCurrentA r" for l v' m
  proof -
    from getRecommendedSection_row [OF assms, of l v' m] obtain r where
      r_in: "r \<in> set cableStandards"
      and r_sec: "getRecommendedSection currentA' l v' m = specSectionMm2 r"
      and r_cur: "currentA' * 1.25 \<le> maxCurrentA r" by blast
    from find_section_in_table [OF r_in] obtain r' where
      r': "find (\<lambda>s. specSectionMm2 s = specSectionMm2 r) cableStandards = Some r'"
      and r'_in: "r' \<in> set cableStandards" and r'_sec: "specSectionMm2 r' = specSectionMm2 r"
      by blast
    from cableStandards_monotone r_in r'_in r'_sec have "maxCurrentA r \<le> maxCurrentA r'"
      by simp
    with r_cur have c125: "currentA' * 1.25 \<le> maxCurrentA r'" by simp
    have "3 \<le> maxCurrentA r'" using cableStandards_bounds r'_in by blast
    with c125 have "currentA' \<le> maxCurrentA r'" by (cases "0 \<le> currentA'") simp_all
    with c125 r' r_sec show ?thesis by (simp add: getCableSpecBySection_def)
  qed
  show ?thesis
  proof (intro conjI impI)
    show "\<exists>r. getCableSpecBySection (getRecommendedSection currentA' len v maxDrop) = Some r
            \<and> currentA' * 1.25 \<le> maxCurrentA r \<and> currentA' \<le> maxCurrentA r"
      by (rule spec)
  next
    assume h: "analyzeCableCurrentA fromNode toNode = currentA'
            \<and> sectionMm2 conn
                = getRecommendedSection currentA' (lengthM conn) (voltageValue (voltage fromNode))
                    MAX_VOLTAGE_DROP_PERCENT"
    from spec [of "lengthM conn" "voltageValue (voltage fromNode)" MAX_VOLTAGE_DROP_PERCENT] h
    obtain r where "find (\<lambda>s. specSectionMm2 s = sectionMm2 conn) cableStandards = Some r"
      and "currentA' \<le> maxCurrentA r"
      by (auto simp: getCableSpecBySection_def)
    with h show "status (analyzeCable conn fromNode toNode) \<noteq> StatusOverload"
      by (simp add: analyzeCable_def Let_def)
  qed
qed

lemma getRecommendedSection_carries_current_example:
  "(\<exists>r. getCableSpecBySection (getRecommendedSection 10 5 12 3) = Some r
            \<and> 10 * 1.25 \<le> maxCurrentA r \<and> 10 \<le> maxCurrentA r)
   \<and> status (analyzeCable
        \<lparr>connId = ''k1'', fromNodeId = ''b1'', toNodeId = ''c1'', sectionMm2 = 6, lengthM = 5\<rparr>
        \<lparr>nodeId = ''b1'', nodeName = ''house bank'', voltage = V12,
          props = BatteryProps 100 agm Absent Absent\<rparr>
        \<lparr>nodeId = ''c1'', nodeName = ''fridge'', voltage = V12,
          props = ConsumerProps (Present 120) Undefined 4 0.5\<rparr>) \<noteq> StatusOverload"
proof -
  have cur: "analyzeCableCurrentA
        \<lparr>nodeId = ''b1'', nodeName = ''house bank'', voltage = V12,
          props = BatteryProps 100 agm Absent Absent\<rparr>
        \<lparr>nodeId = ''c1'', nodeName = ''fridge'', voltage = V12,
          props = ConsumerProps (Present 120) Undefined 4 0.5\<rparr> = 10"
    by (simp add: analyzeCableCurrentA_def nodeType_def getNodeCurrent_def)
  have sec: "getRecommendedSection 10 5 12 MAX_VOLTAGE_DROP_PERCENT = 6"
    by (simp add: getRecommendedSection_def calculateMinSection_def COPPER_RESISTIVITY_def
      MAX_VOLTAGE_DROP_PERCENT_def cableStandards_def mkSpec_def Let_def)
  show ?thesis
    using cur sec
      getRecommendedSection_carries_current [of 10 5 12 3
        "\<lparr>nodeId = ''b1'', nodeName = ''house bank'', voltage = V12,
          props = BatteryProps 100 agm Absent Absent\<rparr>"
        "\<lparr>nodeId = ''c1'', nodeName = ''fridge'', voltage = V12,
          props = ConsumerProps (Present 120) Undefined 4 0.5\<rparr>"
        "\<lparr>connId = ''k1'', fromNodeId = ''b1'', toNodeId = ''c1'', sectionMm2 = 6, lengthM = 5\<rparr>"]
    by simp
qed

text \<open>
  C7. The section recommended for a current is to be one whose rating carries that
  current, so that the cable installed with it is not overloaded. A 3000 W consumer at
  12 V draws 250 A, which the 120 mm2 row (310 A) carries. No row is rated for
  \<open>250 \<times> 1.25\<close> A, and the search for the current then falls back to the smallest
  section, 0.5 mm2, where the search for the section falls back to the largest. Over
  1 m the voltage drop asks for 24.3 mm2, the recommended section is 25 mm2, rated for
  110 A, and the cable installed with it is overloaded; on 120 mm2 it is not. At 248 A
  the recommended section is 120 mm2.
\<close>

theorem getRecommendedSection_fallback_overload:
  "analyzeCableCurrentA
        \<lparr>nodeId = ''b1'', nodeName = ''house bank'', voltage = V12,
          props = BatteryProps 400 lifepo4 Absent Absent\<rparr>
        \<lparr>nodeId = ''c1'', nodeName = ''bow thruster'', voltage = V12,
          props = ConsumerProps (Present 3000) Undefined 0.1 1\<rparr> = 250
   \<and> getRecommendedSection 250 1 12 MAX_VOLTAGE_DROP_PERCENT = 25
   \<and> getCableSpecBySection 25 = Some (mkSpec 25 110 80 0.727)
   \<and> status (analyzeCable
        \<lparr>connId = ''k1'', fromNodeId = ''b1'', toNodeId = ''c1'', sectionMm2 = 25, lengthM = 1\<rparr>
        \<lparr>nodeId = ''b1'', nodeName = ''house bank'', voltage = V12,
          props = BatteryProps 400 lifepo4 Absent Absent\<rparr>
        \<lparr>nodeId = ''c1'', nodeName = ''bow thruster'', voltage = V12,
          props = ConsumerProps (Present 3000) Undefined 0.1 1\<rparr>) = StatusOverload
   \<and> status (analyzeCable
        \<lparr>connId = ''k1'', fromNodeId = ''b1'', toNodeId = ''c1'', sectionMm2 = 120, lengthM = 1\<rparr>
        \<lparr>nodeId = ''b1'', nodeName = ''house bank'', voltage = V12,
          props = BatteryProps 400 lifepo4 Absent Absent\<rparr>
        \<lparr>nodeId = ''c1'', nodeName = ''bow thruster'', voltage = V12,
          props = ConsumerProps (Present 3000) Undefined 0.1 1\<rparr>) = StatusOk
   \<and> getRecommendedSection 248 1 12 MAX_VOLTAGE_DROP_PERCENT = 120"
  by (simp add: getRecommendedSection_def calculateMinSection_def COPPER_RESISTIVITY_def
      MAX_VOLTAGE_DROP_PERCENT_def cableStandards_def mkSpec_def getCableSpecBySection_def
      analyzeCable_def analyzeCableCurrentA_def calculateVoltageDrop_def nodeType_def
      getNodeCurrent_def Let_def)

subsection \<open>Oversized cables\<close>

lemma getRecommendedSection_in_table:
  "\<exists>r \<in> set cableStandards. getRecommendedSection i l v m = specSectionMm2 r"
proof -
  let ?Q = "\<lambda>s. geX (specSectionMm2 s)
      (xmax (calculateMinSection i l v m)
         (case find (\<lambda>s. maxCurrentA s \<ge> i * 1.25) cableStandards of
            Some s \<Rightarrow> specSectionMm2 s | None \<Rightarrow> 0.5))"
  have rec: "getRecommendedSection i l v m
      = (case find ?Q cableStandards of Some s \<Rightarrow> specSectionMm2 s
         | None \<Rightarrow> specSectionMm2 (last cableStandards))"
    by (simp only: getRecommendedSection_def Let_def)
  show ?thesis
  proof (cases "find ?Q cableStandards")
    case None
    with rec last_cableStandards_in show ?thesis
      by (intro bexI [of _ "last cableStandards"]) simp_all
  next
    case (Some s)
    from find_Some_set [OF Some] have "s \<in> set cableStandards" by simp
    with rec Some show ?thesis
      by (intro bexI [of _ s]) simp_all
  qed
qed

lemma getCableSpecBySection_capacity_nonneg:
  "0 \<le> (case getCableSpecBySection x of Some s \<Rightarrow> maxCurrentA s | None \<Rightarrow> 0)"
proof (cases "getCableSpecBySection x")
  case None
  then show ?thesis by simp
next
  case (Some s)
  then have "s \<in> set cableStandards"
    using find_Some_set [of "\<lambda>spec. specSectionMm2 spec = x" cableStandards s]
    by (simp add: getCableSpecBySection_def)
  with cableStandards_bounds have "3 \<le> maxCurrentA s" by blast
  with Some show ?thesis by simp
qed

text \<open>
  A 1 mm2 cable of 1 m carrying 0.1 A at 12 V is oversized for \<^verbatim>\<open>isCableOversized\<close>
  (the recommended section is 0.5 mm2) although its section does not exceed 1.5 mm2; a
  2.5 mm2 cable of 100 m carrying 1 A, less than 30% of its rating of 20 A, is not (the
  recommended section is 10 mm2).
\<close>

theorem isCableOversized_counterexample:
  "isCableOversized
     \<lparr>connId = ''k1'', fromNodeId = ''b1'', toNodeId = ''c1'', sectionMm2 = 1, lengthM = 1\<rparr>
     0.1 12
   \<and> \<not> sectionMm2
     \<lparr>connId = ''k1'', fromNodeId = ''b1'', toNodeId = ''c1'', sectionMm2 = 1, lengthM = 1\<rparr>
       > 1.5
   \<and> \<not> isCableOversized
     \<lparr>connId = ''k2'', fromNodeId = ''b1'', toNodeId = ''c2'', sectionMm2 = 2.5, lengthM = 100\<rparr>
     1 12
   \<and> getCableSpecBySection 2.5 = Some (mkSpec 2.5 20 15 7.41)
   \<and> 1 < 0.3 * maxCurrentA (mkSpec 2.5 20 15 7.41)
   \<and> sectionMm2
     \<lparr>connId = ''k2'', fromNodeId = ''b1'', toNodeId = ''c2'', sectionMm2 = 2.5, lengthM = 100\<rparr>
       > 1.5"
  by (simp add: isCableOversized_def getRecommendedSection_def calculateMinSection_def
      COPPER_RESISTIVITY_def MAX_VOLTAGE_DROP_PERCENT_def cableStandards_def mkSpec_def
      getCableSpecBySection_def Let_def)

text \<open>
  C8, amended. \<^verbatim>\<open>isCableOversized\<close> returns true exactly when the section of the
  connection exceeds 1.5 times the section recommended for its current, length and
  voltage; that section is one of the table, so a cable of at most 0.75 mm2 is never
  oversized and one above 180 mm2 always is, whatever its rated capacity. The rule of the
  specification is the one of the fuse recommendation panel: there a connection gets the status
  oversized exactly when its analysed current is less than 30% of the rated
  \<^verbatim>\<open>maxCurrentA\<close> of its section (0 when the section is not in the table) and its
  section exceeds 1.5 mm2.
\<close>

theorem isCableOversized_iff:
  "(isCableOversized conn i v
      \<longleftrightarrow> sectionMm2 conn
            > 1.5 * getRecommendedSection i (lengthM conn) v MAX_VOLTAGE_DROP_PERCENT)
   \<and> (\<exists>r \<in> set cableStandards.
         getRecommendedSection i (lengthM conn) v MAX_VOLTAGE_DROP_PERCENT = specSectionMm2 r)
   \<and> (sectionMm2 conn \<le> 0.75 \<longrightarrow> \<not> isCableOversized conn i v)
   \<and> (sectionMm2 conn > 180 \<longrightarrow> isCableOversized conn i v)
   \<and> (fuseInfoStatus conn analysis = FuseOversized
      \<longleftrightarrow> (case analysis of Some a \<Rightarrow> currentA a | None \<Rightarrow> 0)
            < 0.3 * (case getCableSpecBySection (sectionMm2 conn) of
                       Some s \<Rightarrow> maxCurrentA s | None \<Rightarrow> 0)
          \<and> sectionMm2 conn > 1.5)"
proof -
  obtain r where r_in: "r \<in> set cableStandards"
    and r_sec: "getRecommendedSection i (lengthM conn) v MAX_VOLTAGE_DROP_PERCENT = specSectionMm2 r"
    using getRecommendedSection_in_table by blast
  from cableStandards_bounds r_in
  have bounds: "0.5 \<le> specSectionMm2 r" "specSectionMm2 r \<le> 120" by blast+
  have iff: "isCableOversized conn i v \<longleftrightarrow> sectionMm2 conn > 1.5 * specSectionMm2 r"
    by (simp add: isCableOversized_def Let_def r_sec mult.commute)
  have cap: "0 \<le> (case getCableSpecBySection (sectionMm2 conn) of
                       Some s \<Rightarrow> maxCurrentA s | None \<Rightarrow> 0)"
    by (rule getCableSpecBySection_capacity_nonneg)
  have panel: "fuseInfoStatus conn analysis = FuseOversized
      \<longleftrightarrow> (case analysis of Some a \<Rightarrow> currentA a | None \<Rightarrow> 0)
            < 0.3 * (case getCableSpecBySection (sectionMm2 conn) of
                       Some s \<Rightarrow> maxCurrentA s | None \<Rightarrow> 0)
          \<and> sectionMm2 conn > 1.5"
    using cap by (auto simp: fuseInfoStatus_def Let_def)
  show ?thesis
    using iff r_in r_sec bounds panel by auto
qed

theorem isCableOversized_iff_witness:
  "\<not> isCableOversized
       \<lparr>connId = ''k1'', fromNodeId = ''b1'', toNodeId = ''c1'', sectionMm2 = 0.5, lengthM = 1\<rparr>
       10 12
   \<and> isCableOversized
       \<lparr>connId = ''k2'', fromNodeId = ''b1'', toNodeId = ''c1'', sectionMm2 = 200, lengthM = 1\<rparr>
       10 12
   \<and> fuseInfoStatus
       \<lparr>connId = ''k3'', fromNodeId = ''b1'', toNodeId = ''c1'', sectionMm2 = 2.5, lengthM = 1\<rparr>
       (Some \<lparr>connectionId = ''k3'', currentA = 1, voltageDrop = 0.014,
              voltageDropPercent = 0.12, powerLossW = 0, recommendedSectionMm2 = 0.5,
              status = StatusOk\<rparr>) = FuseOversized"
  using
    isCableOversized_iff [of
      "\<lparr>connId = ''k1'', fromNodeId = ''b1'', toNodeId = ''c1'', sectionMm2 = 0.5, lengthM = 1\<rparr>"
      10 12 None]
    isCableOversized_iff [of
      "\<lparr>connId = ''k2'', fromNodeId = ''b1'', toNodeId = ''c1'', sectionMm2 = 200, lengthM = 1\<rparr>"
      10 12 None]
    isCableOversized_iff [of
      "\<lparr>connId = ''k3'', fromNodeId = ''b1'', toNodeId = ''c1'', sectionMm2 = 2.5, lengthM = 1\<rparr>"
      10 12
      "Some \<lparr>connectionId = ''k3'', currentA = 1, voltageDrop = 0.014,
              voltageDropPercent = 0.12, powerLossW = 0, recommendedSectionMm2 = 0.5,
              status = StatusOk\<rparr>"]
  by (auto simp: getCableSpecBySection_def cableStandards_def mkSpec_def)


section \<open>Results about the connectivity check\<close>

lemma connected_iff:
  "connected cs a b \<longleftrightarrow>
     (\<exists>conn \<in> set cs. (fromNodeId conn = a \<and> toNodeId conn = b)
                     \<or> (toNodeId conn = a \<and> fromNodeId conn = b))"
  by (simp add: connected_def list_ex_iff)

lemma connected_Cons:
  "connected (conn # cs) a b \<longleftrightarrow>
     (fromNodeId conn = a \<and> toNodeId conn = b) \<or> (toNodeId conn = a \<and> fromNodeId conn = b)
     \<or> connected cs a b"
  by (simp add: connected_def)

lemma pushNeighbours_set:
  "set (pushNeighbours cs c V q) = set q \<union> {w. connected cs c w \<and> w \<notin> V}"
proof (induction cs arbitrary: q)
  case Nil
  show ?case by (simp add: connected_def)
next
  case (Cons conn cs)
  show ?case
    by (simp add: Let_def Cons.IH connected_Cons) blast
qed

lemma hopAvoiding_mono:
  assumes "(hopAvoiding nodes cs V')\<^sup>*\<^sup>* a b" and "V \<subseteq> V'"
  shows "(hopAvoiding nodes cs V)\<^sup>*\<^sup>* a b"
  using assms
proof (induction rule: rtranclp_induct)
  case base
  show ?case by simp
next
  case (step y z)
  then have "hopAvoiding nodes cs V y z" by (auto simp: hopAvoiding_def)
  with step show ?case by (meson rtranclp.rtrancl_into_rtrancl)
qed

lemma hopAvoiding_end:
  "(hopAvoiding nodes cs V)\<^sup>*\<^sup>* a b \<Longrightarrow> a \<notin> V \<Longrightarrow> b \<notin> V"
  by (induction rule: rtranclp_induct) (simp_all add: hopAvoiding_def)

lemma resolves_exclusive: "resolvesToSource nodes i \<Longrightarrow> \<not> resolvesToOther nodes i"
  by (simp add: resolvesToSource_def resolvesToOther_def split: option.splits)

text \<open>An id that resolves to no node is on no chain to a source.\<close>

lemma avoid_unresolved:
  assumes none: "find (\<lambda>n. nodeId n = c) nodes = None"
    and path: "(hopAvoiding nodes cs V)\<^sup>*\<^sup>* x t"
    and src: "resolvesToSource nodes t"
    and x: "x \<notin> V"
  shows "x \<noteq> c \<and> (hopAvoiding nodes cs (insert c V))\<^sup>*\<^sup>* x t"
  using path x
proof (induction rule: converse_rtranclp_induct)
  case base
  from src none show ?case by (auto simp: resolvesToSource_def)
next
  case (step y z)
  from step.hyps(1) have yz: "hop nodes cs y z" "y \<notin> V" "z \<notin> V"
    by (simp_all add: hopAvoiding_def)
  from step.IH [OF yz(3)] have z: "z \<noteq> c" "(hopAvoiding nodes cs (insert c V))\<^sup>*\<^sup>* z t"
    by simp_all
  from yz(1) none have "y \<noteq> c" by (auto simp: hop_def resolvesToOther_def)
  with yz z have "hopAvoiding nodes cs (insert c V) y z" by (simp add: hopAvoiding_def)
  with z \<open>y \<noteq> c\<close> show ?case by (meson converse_rtranclp_into_rtranclp)
qed

text \<open>A chain to a source either stays away from \<open>c\<close> or continues from a neighbour of \<open>c\<close>.\<close>

lemma avoid_expanded:
  assumes other: "resolvesToOther nodes c"
    and path: "(hopAvoiding nodes cs V)\<^sup>*\<^sup>* x t"
    and src: "resolvesToSource nodes t"
    and x: "x \<notin> V"
  shows "(x \<noteq> c \<and> (hopAvoiding nodes cs (insert c V))\<^sup>*\<^sup>* x t)
       \<or> (\<exists>w. connected cs c w \<and> w \<notin> insert c V \<and> (hopAvoiding nodes cs (insert c V))\<^sup>*\<^sup>* w t)"
  using path x
proof (induction rule: converse_rtranclp_induct)
  case base
  from src other resolves_exclusive have "t \<noteq> c" by blast
  then show ?case by simp
next
  case (step y z)
  from step.hyps(1) have yz: "hop nodes cs y z" "y \<notin> V" "z \<notin> V"
    by (simp_all add: hopAvoiding_def)
  from step.IH [OF yz(3)] show ?case
  proof
    assume z: "z \<noteq> c \<and> (hopAvoiding nodes cs (insert c V))\<^sup>*\<^sup>* z t"
    show ?thesis
    proof (cases "y = c")
      case True
      with yz z have "connected cs c z \<and> z \<notin> insert c V" by (simp add: hop_def)
      with z show ?thesis by blast
    next
      case False
      with yz z have "hopAvoiding nodes cs (insert c V) y z" by (simp add: hopAvoiding_def)
      with z False show ?thesis by (meson converse_rtranclp_into_rtranclp)
    qed
  next
    assume "\<exists>w. connected cs c w \<and> w \<notin> insert c V
        \<and> (hopAvoiding nodes cs (insert c V))\<^sup>*\<^sup>* w t"
    then show ?thesis by blast
  qed
qed

lemma whileQueue_reaches:
  "whileQueue nodes cs V q = reachesFrom nodes cs V q"
proof (induction nodes cs V q rule: whileQueue.induct)
  case (1 nodes cs V)
  show ?case by (simp add: reachesFrom_def)
next
  case (2 nodes cs V c q)
  show ?case
  proof (cases "c \<in> V")
    case True
    with 2 show ?thesis by (simp add: reachesFrom_def)
  next
    case fresh: False
    show ?thesis
    proof (cases "find (\<lambda>n. nodeId n = c) nodes")
      case None
      have "reachesFrom nodes cs V (c # q) = reachesFrom nodes cs (insert c V) q"
      proof
        assume "reachesFrom nodes cs V (c # q)"
        then obtain x t where xt: "x \<in> set (c # q)" "x \<notin> V"
          "(hopAvoiding nodes cs V)\<^sup>*\<^sup>* x t" "resolvesToSource nodes t"
          by (auto simp: reachesFrom_def)
        from avoid_unresolved [OF None xt(3) xt(4) xt(2)] xt
        show "reachesFrom nodes cs (insert c V) q"
          by (auto simp: reachesFrom_def)
      next
        assume "reachesFrom nodes cs (insert c V) q"
        then obtain x t where xt: "x \<in> set q" "x \<notin> insert c V"
          "(hopAvoiding nodes cs (insert c V))\<^sup>*\<^sup>* x t" "resolvesToSource nodes t"
          by (auto simp: reachesFrom_def)
        from hopAvoiding_mono [OF xt(3), of V] have "(hopAvoiding nodes cs V)\<^sup>*\<^sup>* x t"
          by auto
        with xt show "reachesFrom nodes cs V (c # q)"
          by (auto simp: reachesFrom_def)
      qed
      with 2 fresh None show ?thesis by simp
    next
      case (Some n)
      show ?thesis
      proof (cases "isSourceNode n")
        case True
        with Some have "resolvesToSource nodes c" by (simp add: resolvesToSource_def)
        with fresh have "reachesFrom nodes cs V (c # q)"
          by (auto simp: reachesFrom_def)
        with fresh Some True show ?thesis by (simp add: isSourceNode_def)
      next
        case False
        with Some have other: "resolvesToOther nodes c" by (simp add: resolvesToOther_def)
        let ?q' = "pushNeighbours cs c (insert c V) q"
        have "reachesFrom nodes cs V (c # q) = reachesFrom nodes cs (insert c V) ?q'"
        proof
          assume "reachesFrom nodes cs V (c # q)"
          then obtain x t where xt: "x \<in> set (c # q)" "x \<notin> V"
            "(hopAvoiding nodes cs V)\<^sup>*\<^sup>* x t" "resolvesToSource nodes t"
            by (auto simp: reachesFrom_def)
          from avoid_expanded [OF other xt(3) xt(4) xt(2)]
          show "reachesFrom nodes cs (insert c V) ?q'"
          proof
            assume "x \<noteq> c \<and> (hopAvoiding nodes cs (insert c V))\<^sup>*\<^sup>* x t"
            with xt show ?thesis
              by (auto simp: reachesFrom_def pushNeighbours_set)
          next
            assume "\<exists>w. connected cs c w \<and> w \<notin> insert c V
              \<and> (hopAvoiding nodes cs (insert c V))\<^sup>*\<^sup>* w t"
            then obtain w where "connected cs c w" "w \<notin> insert c V"
              "(hopAvoiding nodes cs (insert c V))\<^sup>*\<^sup>* w t" by blast
            with xt(4) show ?thesis
              unfolding reachesFrom_def pushNeighbours_set by blast
          qed
        next
          assume "reachesFrom nodes cs (insert c V) ?q'"
          then obtain x t where xt: "x \<in> set ?q'" "x \<notin> insert c V"
            "(hopAvoiding nodes cs (insert c V))\<^sup>*\<^sup>* x t" "resolvesToSource nodes t"
            by (auto simp: reachesFrom_def)
          from hopAvoiding_mono [OF xt(3), of V] have path: "(hopAvoiding nodes cs V)\<^sup>*\<^sup>* x t"
            by auto
          from xt(1) have "x \<in> set q \<or> connected cs c x"
            by (auto simp: pushNeighbours_set)
          then show "reachesFrom nodes cs V (c # q)"
          proof
            assume "x \<in> set q"
            with xt path show ?thesis by (auto simp: reachesFrom_def)
          next
            assume "connected cs c x"
            with other fresh xt(2) have "hopAvoiding nodes cs V c x"
              by (simp add: hopAvoiding_def hop_def)
            with path have "(hopAvoiding nodes cs V)\<^sup>*\<^sup>* c t"
              by (meson converse_rtranclp_into_rtranclp)
            with fresh xt(4) show ?thesis by (auto simp: reachesFrom_def)
          qed
        qed
        with 2 fresh Some False show ?thesis by (simp add: isSourceNode_def)
      qed
    qed
  qed
qed

lemma hopAvoiding_empty: "hopAvoiding nodes cs {} = hop nodes cs"
  by (intro ext) (simp add: hopAvoiding_def)

lemma isNodeConnectedToSource_sourceReachable:
  "isNodeConnectedToSource i nodes cs = sourceReachable nodes cs i"
  by (simp add: isNodeConnectedToSource_def whileQueue_reaches reachesFrom_def
      hopAvoiding_empty sourceReachable_def)

lemma find_distinct_id:
  "distinct (map nodeId nodes) \<Longrightarrow> s \<in> set nodes
     \<Longrightarrow> find (\<lambda>n. nodeId n = nodeId s) nodes = Some s"
  by (induction nodes) auto

lemma find_id_in:
  "i \<in> nodeId ` set nodes \<Longrightarrow> \<exists>n. find (\<lambda>n. nodeId n = i) nodes = Some n"
  by (induction nodes) auto

lemma connected_ends: "connected cs a b \<Longrightarrow> a \<in> connectionEnds cs \<and> b \<in> connectionEnds cs"
  by (auto simp: connected_iff connectionEnds_def)

lemma hop_connected: "(hop nodes cs)\<^sup>*\<^sup>* a b \<Longrightarrow> (connected cs)\<^sup>*\<^sup>* a b"
proof (induction rule: rtranclp_induct)
  case base
  show ?case by simp
next
  case (step y z)
  then have "connected cs y z" by (simp add: hop_def)
  with step show ?case by (meson rtranclp.rtrancl_into_rtrancl)
qed

lemma sourceReachable_wellformed:
  assumes dist: "distinct (map nodeId nodes)"
    and ends: "connectionEnds cs \<subseteq> nodeId ` set nodes"
  shows "sourceReachable nodes cs i
     \<longleftrightarrow> (\<exists>s \<in> set nodes. isSourceNode s \<and> (connected cs)\<^sup>*\<^sup>* i (nodeId s))"
proof
  assume "sourceReachable nodes cs i"
  then obtain t where t: "(hop nodes cs)\<^sup>*\<^sup>* i t" "resolvesToSource nodes t"
    by (auto simp: sourceReachable_def)
  from t(2) obtain s where "find (\<lambda>n. nodeId n = t) nodes = Some s" "isSourceNode s"
    by (auto simp: resolvesToSource_def split: option.splits)
  with find_Some_set [of "\<lambda>n. nodeId n = t" nodes s]
  have "s \<in> set nodes" "nodeId s = t" "isSourceNode s" by simp_all
  with hop_connected [OF t(1)]
  show "\<exists>s \<in> set nodes. isSourceNode s \<and> (connected cs)\<^sup>*\<^sup>* i (nodeId s)" by blast
next
  assume "\<exists>s \<in> set nodes. isSourceNode s \<and> (connected cs)\<^sup>*\<^sup>* i (nodeId s)"
  then obtain s where s: "s \<in> set nodes" "isSourceNode s" "(connected cs)\<^sup>*\<^sup>* i (nodeId s)"
    by blast
  from find_distinct_id [OF dist s(1)] s(2) have src: "resolvesToSource nodes (nodeId s)"
    by (simp add: resolvesToSource_def)
  from s(3) show "sourceReachable nodes cs i"
  proof (induction rule: converse_rtranclp_induct)
    case base
    from src show ?case by (auto simp: sourceReachable_def)
  next
    case (step y z)
    from connected_ends [OF step.hyps(1)] ends have "y \<in> nodeId ` set nodes" by blast
    from find_id_in [OF this] obtain n where n: "find (\<lambda>n. nodeId n = y) nodes = Some n"
      by blast
    show ?case
    proof (cases "isSourceNode n")
      case True
      with n have "resolvesToSource nodes y" by (simp add: resolvesToSource_def)
      then show ?thesis by (auto simp: sourceReachable_def)
    next
      case False
      with n step.hyps(1) have "hop nodes cs y z" by (simp add: hop_def resolvesToOther_def)
      moreover from step.IH obtain t where "(hop nodes cs)\<^sup>*\<^sup>* z t" "resolvesToSource nodes t"
        by (auto simp: sourceReachable_def)
      ultimately show ?thesis
        unfolding sourceReachable_def by (meson converse_rtranclp_into_rtranclp)
    qed
  qed
qed

text \<open>Only the endpoints of the connections and the ids and types of the nodes matter.\<close>

lemma connected_cong:
  assumes "map (\<lambda>c. (fromNodeId c, toNodeId c)) cs = map (\<lambda>c. (fromNodeId c, toNodeId c)) cs'"
  shows "connected cs = connected cs'"
proof -
  have "connected xs a b \<longleftrightarrow>
      (a, b) \<in> set (map (\<lambda>c. (fromNodeId c, toNodeId c)) xs)
      \<or> (b, a) \<in> set (map (\<lambda>c. (fromNodeId c, toNodeId c)) xs)" for xs a b
    by (auto simp: connected_iff)
  then show ?thesis by (intro ext) (simp only: assms)
qed

lemma find_type_cong:
  "map (\<lambda>n. (nodeId n, nodeType n)) nodes = map (\<lambda>n. (nodeId n, nodeType n)) nodes'
     \<Longrightarrow> map_option nodeType (find (\<lambda>n. nodeId n = i) nodes)
         = map_option nodeType (find (\<lambda>n. nodeId n = i) nodes')"
proof (induction nodes arbitrary: nodes')
  case Nil
  then show ?case by simp
next
  case (Cons n nodes)
  then obtain m ms where "nodes' = m # ms" by (cases nodes') auto
  with Cons show ?case by auto
qed

lemma resolves_cong:
  assumes "map (\<lambda>n. (nodeId n, nodeType n)) nodes = map (\<lambda>n. (nodeId n, nodeType n)) nodes'"
  shows "resolvesToSource nodes = resolvesToSource nodes'"
    and "resolvesToOther nodes = resolvesToOther nodes'"
proof -
  have "resolvesToSource nodes i = resolvesToSource nodes' i" for i
    using find_type_cong [OF assms, of i]
    by (auto simp: resolvesToSource_def isSourceNode_def split: option.splits)
  then show "resolvesToSource nodes = resolvesToSource nodes'" by (intro ext)
  have "resolvesToOther nodes i = resolvesToOther nodes' i" for i
    using find_type_cong [OF assms, of i]
    by (auto simp: resolvesToOther_def isSourceNode_def split: option.splits)
  then show "resolvesToOther nodes = resolvesToOther nodes'" by (intro ext)
qed

lemma sourceReachable_cong:
  assumes "map (\<lambda>n. (nodeId n, nodeType n)) nodes = map (\<lambda>n. (nodeId n, nodeType n)) nodes'"
    and "map (\<lambda>c. (fromNodeId c, toNodeId c)) cs = map (\<lambda>c. (fromNodeId c, toNodeId c)) cs'"
  shows "sourceReachable nodes cs i = sourceReachable nodes' cs' i"
proof -
  have "hop nodes cs = hop nodes' cs'"
    using resolves_cong(2) [OF assms(1)] connected_cong [OF assms(2)]
    by (intro ext) (simp add: hop_def)
  with resolves_cong(1) [OF assms(1)] show ?thesis by (simp add: sourceReachable_def)
qed

lemma existingConnections_ends:
  "connectionEnds (existingConnections nodes cs) \<subseteq> nodeId ` set nodes"
  by (auto simp: connectionEnds_def existingConnections_def)

lemma connected_existing:
  "connected (existingConnections nodes cs) a b
     \<longleftrightarrow> connected cs a b \<and> a \<in> nodeId ` set nodes \<and> b \<in> nodeId ` set nodes"
  by (auto simp: connected_iff existingConnections_def)

lemma find_Some_id: "find (\<lambda>n. nodeId n = i) nodes = Some n \<Longrightarrow> i \<in> nodeId ` set nodes"
  using find_Some_set [of "\<lambda>n. nodeId n = i" nodes n] by auto

lemma resolves_id:
  "resolvesToSource nodes i \<or> resolvesToOther nodes i \<Longrightarrow> i \<in> nodeId ` set nodes"
  by (auto simp: resolvesToSource_def resolvesToOther_def split: option.splits
      dest: find_Some_id)

text \<open>On a chain of hops to a source every id resolves, so every connection on it is an edge.\<close>

lemma hop_chain_existing:
  assumes "(hop nodes cs)\<^sup>*\<^sup>* i t" and "resolvesToSource nodes t"
  shows "i \<in> nodeId ` set nodes \<and> (hop nodes (existingConnections nodes cs))\<^sup>*\<^sup>* i t"
  using assms
proof (induction rule: converse_rtranclp_induct)
  case base
  then show ?case using resolves_id by blast
next
  case (step y z)
  from step.IH [OF step.prems] have z: "z \<in> nodeId ` set nodes"
    "(hop nodes (existingConnections nodes cs))\<^sup>*\<^sup>* z t" by simp_all
  from step.hyps(1) have y: "resolvesToOther nodes y" "connected cs y z"
    by (simp_all add: hop_def)
  from y(1) resolves_id have y_in: "y \<in> nodeId ` set nodes" by blast
  with y z(1) have "hop nodes (existingConnections nodes cs) y z"
    by (simp add: hop_def connected_existing)
  with z(2) y_in show ?case by (meson converse_rtranclp_into_rtranclp)
qed

lemma hop_existing_mono:
  "(hop nodes (existingConnections nodes cs))\<^sup>*\<^sup>* i t \<Longrightarrow> (hop nodes cs)\<^sup>*\<^sup>* i t"
proof (induction rule: rtranclp_induct)
  case base
  show ?case by simp
next
  case (step y z)
  then have "hop nodes cs y z" by (simp add: hop_def connected_existing)
  with step show ?case by (meson rtranclp.rtrancl_into_rtrancl)
qed

lemma sourceReachable_existing:
  "sourceReachable nodes cs i = sourceReachable nodes (existingConnections nodes cs) i"
  unfolding sourceReachable_def
  using hop_chain_existing hop_existing_mono by blast

text \<open>
  C2. For every node array with unique ids and every connection array,
  \<^verbatim>\<open>findUnpoweredConsumers\<close> returns exactly the consumer nodes from which no node of
  type battery, solar, alternator or charger is reachable through the undirected graph of
  the connections, and \<^verbatim>\<open>isNodeConnectedToSource\<close> is true exactly when one is. The
  edges of the graph are the connections between nodes of the array; a connection with a
  dangling end is skipped. The answer depends on the ids and types of the nodes and on
  the ends of the connections only, not on voltages, currents or sections.
\<close>

theorem findUnpoweredConsumers_reachability:
  "(distinct (map nodeId nodes) \<longrightarrow>
      findUnpoweredConsumers nodes cs
        = filter (\<lambda>n. nodeType n = consumer
              \<and> \<not> (\<exists>s \<in> set nodes. isSourceNode s
                    \<and> (connected (existingConnections nodes cs))\<^sup>*\<^sup>* (nodeId n) (nodeId s)))
            nodes
      \<and> (isNodeConnectedToSource i nodes cs
           \<longleftrightarrow> (\<exists>s \<in> set nodes. isSourceNode s
                 \<and> (connected (existingConnections nodes cs))\<^sup>*\<^sup>* i (nodeId s))))
   \<and> (map (\<lambda>n. (nodeId n, nodeType n)) nodes = map (\<lambda>n. (nodeId n, nodeType n)) nodes'
        \<and> map (\<lambda>c. (fromNodeId c, toNodeId c)) cs = map (\<lambda>c. (fromNodeId c, toNodeId c)) cs'
      \<longrightarrow> isNodeConnectedToSource i nodes cs = isNodeConnectedToSource i nodes' cs'
        \<and> map nodeId (findUnpoweredConsumers nodes cs)
            = map nodeId (findUnpoweredConsumers nodes' cs'))"
proof (intro conjI impI)
  assume dist: "distinct (map nodeId nodes)"
  have eq: "isNodeConnectedToSource j nodes cs
      \<longleftrightarrow> (\<exists>s \<in> set nodes. isSourceNode s
            \<and> (connected (existingConnections nodes cs))\<^sup>*\<^sup>* j (nodeId s))" for j
    using sourceReachable_wellformed [OF dist existingConnections_ends, of cs j]
    by (simp add: isNodeConnectedToSource_sourceReachable sourceReachable_existing [of nodes cs j])
  show "findUnpoweredConsumers nodes cs
        = filter (\<lambda>n. nodeType n = consumer
              \<and> \<not> (\<exists>s \<in> set nodes. isSourceNode s
                    \<and> (connected (existingConnections nodes cs))\<^sup>*\<^sup>* (nodeId n) (nodeId s)))
            nodes"
    by (simp add: findUnpoweredConsumers_def eq conj_commute)
  show "isNodeConnectedToSource i nodes cs
           \<longleftrightarrow> (\<exists>s \<in> set nodes. isSourceNode s
                 \<and> (connected (existingConnections nodes cs))\<^sup>*\<^sup>* i (nodeId s))"
    by (rule eq)
next
  assume same: "map (\<lambda>n. (nodeId n, nodeType n)) nodes = map (\<lambda>n. (nodeId n, nodeType n)) nodes'
        \<and> map (\<lambda>c. (fromNodeId c, toNodeId c)) cs = map (\<lambda>c. (fromNodeId c, toNodeId c)) cs'"
  then have eq: "isNodeConnectedToSource j nodes cs = isNodeConnectedToSource j nodes' cs'" for j
    using sourceReachable_cong [of nodes nodes' cs cs' j]
    by (simp add: isNodeConnectedToSource_sourceReachable)
  show "isNodeConnectedToSource i nodes cs = isNodeConnectedToSource i nodes' cs'"
    by (rule eq)
  let ?g = "\<lambda>n. (nodeId n, nodeType n)"
  let ?Q = "\<lambda>ns ks p. snd p = consumer \<and> \<not> isNodeConnectedToSource (fst p) ns ks"
  have ids: "map nodeId (findUnpoweredConsumers ns ks) = map fst (filter (?Q ns ks) (map ?g ns))"
    for ns ks
    by (simp add: findUnpoweredConsumers_def filter_map comp_def conj_commute)
  have "?Q nodes cs = ?Q nodes' cs'" by (intro ext) (simp add: eq)
  with same show "map nodeId (findUnpoweredConsumers nodes cs)
      = map nodeId (findUnpoweredConsumers nodes' cs')"
    by (simp only: ids)
qed

theorem findUnpoweredConsumers_reachability_witness:
  "findUnpoweredConsumers
     [\<lparr>nodeId = ''c1'', nodeName = ''fridge'', voltage = V12,
        props = ConsumerProps (Present 60) Undefined 24 0.4\<rparr>,
      \<lparr>nodeId = ''c2'', nodeName = ''lamp'', voltage = V12,
        props = ConsumerProps (Present 5) Undefined 4 1\<rparr>,
      \<lparr>nodeId = ''bus1'', nodeName = ''main bus'', voltage = V12, props = BusProps 100\<rparr>,
      \<lparr>nodeId = ''b1'', nodeName = ''house bank'', voltage = V12,
        props = BatteryProps 100 agm Absent Absent\<rparr>]
     [\<lparr>connId = ''k1'', fromNodeId = ''bus1'', toNodeId = ''c1'', sectionMm2 = 2.5, lengthM = 2\<rparr>,
      \<lparr>connId = ''k2'', fromNodeId = ''b1'', toNodeId = ''bus1'', sectionMm2 = 10, lengthM = 1\<rparr>,
      \<lparr>connId = ''k3'', fromNodeId = ''c2'', toNodeId = ''x'', sectionMm2 = 1.5, lengthM = 2\<rparr>,
      \<lparr>connId = ''k4'', fromNodeId = ''x'', toNodeId = ''b1'', sectionMm2 = 1.5, lengthM = 2\<rparr>]
    = [\<lparr>nodeId = ''c2'', nodeName = ''lamp'', voltage = V12,
        props = ConsumerProps (Present 5) Undefined 4 1\<rparr>]
   \<and> (\<exists>s \<in> set
     [\<lparr>nodeId = ''c1'', nodeName = ''fridge'', voltage = V12,
        props = ConsumerProps (Present 60) Undefined 24 0.4\<rparr>,
      \<lparr>nodeId = ''c2'', nodeName = ''lamp'', voltage = V12,
        props = ConsumerProps (Present 5) Undefined 4 1\<rparr>,
      \<lparr>nodeId = ''bus1'', nodeName = ''main bus'', voltage = V12, props = BusProps 100\<rparr>,
      \<lparr>nodeId = ''b1'', nodeName = ''house bank'', voltage = V12,
        props = BatteryProps 100 agm Absent Absent\<rparr>].
      isSourceNode s \<and> (connected (existingConnections
     [\<lparr>nodeId = ''c1'', nodeName = ''fridge'', voltage = V12,
        props = ConsumerProps (Present 60) Undefined 24 0.4\<rparr>,
      \<lparr>nodeId = ''c2'', nodeName = ''lamp'', voltage = V12,
        props = ConsumerProps (Present 5) Undefined 4 1\<rparr>,
      \<lparr>nodeId = ''bus1'', nodeName = ''main bus'', voltage = V12, props = BusProps 100\<rparr>,
      \<lparr>nodeId = ''b1'', nodeName = ''house bank'', voltage = V12,
        props = BatteryProps 100 agm Absent Absent\<rparr>]
     [\<lparr>connId = ''k1'', fromNodeId = ''bus1'', toNodeId = ''c1'', sectionMm2 = 2.5, lengthM = 2\<rparr>,
      \<lparr>connId = ''k2'', fromNodeId = ''b1'', toNodeId = ''bus1'', sectionMm2 = 10, lengthM = 1\<rparr>,
      \<lparr>connId = ''k3'', fromNodeId = ''c2'', toNodeId = ''x'', sectionMm2 = 1.5, lengthM = 2\<rparr>,
      \<lparr>connId = ''k4'', fromNodeId = ''x'', toNodeId = ''b1'', sectionMm2 = 1.5, lengthM = 2\<rparr>]))\<^sup>*\<^sup>*
        ''c1'' (nodeId s))
   \<and> \<not> (\<exists>s \<in> set
     [\<lparr>nodeId = ''c1'', nodeName = ''fridge'', voltage = V12,
        props = ConsumerProps (Present 60) Undefined 24 0.4\<rparr>,
      \<lparr>nodeId = ''c2'', nodeName = ''lamp'', voltage = V12,
        props = ConsumerProps (Present 5) Undefined 4 1\<rparr>,
      \<lparr>nodeId = ''bus1'', nodeName = ''main bus'', voltage = V12, props = BusProps 100\<rparr>,
      \<lparr>nodeId = ''b1'', nodeName = ''house bank'', voltage = V12,
        props = BatteryProps 100 agm Absent Absent\<rparr>].
      isSourceNode s \<and> (connected (existingConnections
     [\<lparr>nodeId = ''c1'', nodeName = ''fridge'', voltage = V12,
        props = ConsumerProps (Present 60) Undefined 24 0.4\<rparr>,
      \<lparr>nodeId = ''c2'', nodeName = ''lamp'', voltage = V12,
        props = ConsumerProps (Present 5) Undefined 4 1\<rparr>,
      \<lparr>nodeId = ''bus1'', nodeName = ''main bus'', voltage = V12, props = BusProps 100\<rparr>,
      \<lparr>nodeId = ''b1'', nodeName = ''house bank'', voltage = V12,
        props = BatteryProps 100 agm Absent Absent\<rparr>]
     [\<lparr>connId = ''k1'', fromNodeId = ''bus1'', toNodeId = ''c1'', sectionMm2 = 2.5, lengthM = 2\<rparr>,
      \<lparr>connId = ''k2'', fromNodeId = ''b1'', toNodeId = ''bus1'', sectionMm2 = 10, lengthM = 1\<rparr>,
      \<lparr>connId = ''k3'', fromNodeId = ''c2'', toNodeId = ''x'', sectionMm2 = 1.5, lengthM = 2\<rparr>,
      \<lparr>connId = ''k4'', fromNodeId = ''x'', toNodeId = ''b1'', sectionMm2 = 1.5, lengthM = 2\<rparr>]))\<^sup>*\<^sup>*
        ''c2'' (nodeId s))"
proof -
  let ?ns = "[\<lparr>nodeId = ''c1'', nodeName = ''fridge'', voltage = V12,
        props = ConsumerProps (Present 60) Undefined 24 0.4\<rparr>,
      \<lparr>nodeId = ''c2'', nodeName = ''lamp'', voltage = V12,
        props = ConsumerProps (Present 5) Undefined 4 1\<rparr>,
      \<lparr>nodeId = ''bus1'', nodeName = ''main bus'', voltage = V12, props = BusProps 100\<rparr>,
      \<lparr>nodeId = ''b1'', nodeName = ''house bank'', voltage = V12,
        props = BatteryProps 100 agm Absent Absent\<rparr>]"
  let ?cs = "[\<lparr>connId = ''k1'', fromNodeId = ''bus1'', toNodeId = ''c1'', sectionMm2 = 2.5, lengthM = 2\<rparr>,
      \<lparr>connId = ''k2'', fromNodeId = ''b1'', toNodeId = ''bus1'', sectionMm2 = 10, lengthM = 1\<rparr>,
      \<lparr>connId = ''k3'', fromNodeId = ''c2'', toNodeId = ''x'', sectionMm2 = 1.5, lengthM = 2\<rparr>,
      \<lparr>connId = ''k4'', fromNodeId = ''x'', toNodeId = ''b1'', sectionMm2 = 1.5, lengthM = 2\<rparr>]"
  have dist: "distinct (map nodeId ?ns)"
    by simp
  have run1: "isNodeConnectedToSource ''c1'' ?ns ?cs"
    by (simp add: isNodeConnectedToSource_def nodeType_def)
  have run2: "\<not> isNodeConnectedToSource ''c2'' ?ns ?cs"
    by (simp add: isNodeConnectedToSource_def nodeType_def)
  have unp: "findUnpoweredConsumers ?ns ?cs = [\<lparr>nodeId = ''c2'', nodeName = ''lamp'', voltage = V12,
        props = ConsumerProps (Present 5) Undefined 4 1\<rparr>]"
    by (simp add: findUnpoweredConsumers_def isNodeConnectedToSource_def nodeType_def)
  from findUnpoweredConsumers_reachability [of ?ns ?cs "''c1''" ?ns ?cs] dist run1
  have a: "\<exists>s \<in> set ?ns. isSourceNode s
      \<and> (connected (existingConnections ?ns ?cs))\<^sup>*\<^sup>* ''c1'' (nodeId s)"
    by blast
  from findUnpoweredConsumers_reachability [of ?ns ?cs "''c2''" ?ns ?cs] dist run2
  have b: "\<not> (\<exists>s \<in> set ?ns. isSourceNode s
      \<and> (connected (existingConnections ?ns ?cs))\<^sup>*\<^sup>* ''c2'' (nodeId s))"
    by blast
  from unp a b show ?thesis by blast
qed

end
